theory Spec2Isabelle
  imports Main
begin

section \<open>Token issue and validation\<close>

text \<open>
  The token functions of \<^verbatim>\<open>src/src/main.py\<close> (lines 32--36 and 117--140) call the JOSE
  library for the wire format. A compact token is three base64url segments: a JSON
  header naming the algorithm, a JSON object of claims, and a MAC over the first two.
  The only claims the program reads or writes are \<^verbatim>\<open>sub\<close> and \<^verbatim>\<open>exp\<close>; a Python dict
  in which either key may be missing is a record of options. The value of \<^verbatim>\<open>exp\<close> is a
  number of whole seconds, which is what the library stores and compares, or JSON
  \<^verbatim>\<open>null\<close>.
\<close>

datatype claim_time = Seconds int | Null

record claims =
  sub :: "string option"
  exp :: "claim_time option"

text \<open>
  The exceptions that reach \<^verbatim>\<open>verify_token\<close> from the decoder. The classes
  \<^verbatim>\<open>ExpiredSignatureError\<close> and \<^verbatim>\<open>JWTClaimsError\<close> are subclasses of \<^verbatim>\<open>JWTError\<close>;
  \<^verbatim>\<open>TypeError\<close> and \<^verbatim>\<open>RecursionError\<close> are not.
\<close>

datatype exception =
    JWTError string
  | ExpiredSignatureError string
  | JWTClaimsError string
  | TypeError string
  | RecursionError string

fun isinstance_JWTError :: "exception \<Rightarrow> bool" where
  "isinstance_JWTError (JWTError _) = True"
| "isinstance_JWTError (ExpiredSignatureError _) = True"
| "isinstance_JWTError (JWTClaimsError _) = True"
| "isinstance_JWTError (TypeError _) = False"
| "isinstance_JWTError (RecursionError _) = False"

definition ALGORITHM :: string where
  "ALGORITHM = ''HS256''"

definition ACCESS_TOKEN_EXPIRE_MINUTES :: int where
  "ACCESS_TOKEN_EXPIRE_MINUTES = 30"

text \<open>The dict \<^verbatim>\<open>{"email": ..., "exp": ...}\<close> that \<^verbatim>\<open>verify_token\<close> returns.\<close>

record token_data =
  email :: string
  exp_claim :: "int option"

text \<open>
  \<^verbatim>\<open>verify_token(token)\<close>, lines 128--140. The call \<^verbatim>\<open>jwt.decode(token, SECRET_KEY,
  algorithms=[ALGORITHM])\<close> is the parameter \<open>decode\<close>, which also gets the clock; it
  returns the claims (\<open>Inr\<close>) or raises (\<open>Inl\<close>). The \<^verbatim>\<open>except\<close> clause of line 138
  names \<^verbatim>\<open>jwt.JWTError\<close> only, so any other exception leaves \<^verbatim>\<open>verify_token\<close>: that is
  the \<open>Inl\<close> of the result. \<^verbatim>\<open>payload.get("exp")\<close> is \<^verbatim>\<open>None\<close> for a missing key and for
  \<^verbatim>\<open>null\<close>.
\<close>

definition verify_token ::
  "(int \<Rightarrow> 'token \<Rightarrow> string \<Rightarrow> string list \<Rightarrow> exception + claims) \<Rightarrow> string \<Rightarrow> 'token \<Rightarrow> int
     \<Rightarrow> exception + token_data option" where
  "verify_token decode SECRET_KEY tok now =
     (case decode now tok SECRET_KEY [ALGORITHM] of
        Inr payload \<Rightarrow>
          (case sub payload of
             None \<Rightarrow> Inr None
           | Some e \<Rightarrow>
               Inr (Some \<lparr>email = e,
                          exp_claim = (case exp payload of Some (Seconds s) \<Rightarrow> Some s | _ \<Rightarrow> None)\<rparr>))
      | Inl e \<Rightarrow> if isinstance_JWTError e then Inr None else Inl e)"

subsection \<open>The library's encoder and decoder\<close>

text \<open>
  The model of the library keeps what the decoder decides on and drops the byte
  encoding. A token is one of:
  \<^item> \<open>Malformed\<close>: text the decoder rejects with a \<^verbatim>\<open>JWTError\<close> before it looks at the
    signature (not three segments, a segment that is not base64url, a header that is
    not a JSON object);
  \<^item> \<open>Crashing\<close>: text on which the decoder's own parsing raises another exception, as a
    header whose JSON is nested deeper than the interpreter's recursion limit
    (\<^verbatim>\<open>RecursionError\<close>);
  \<^item> \<open>JWS\<close>: the three parts themselves, with claims \<^verbatim>\<open>sub\<close> (a string) and \<^verbatim>\<open>exp\<close>
    (a number or \<^verbatim>\<open>null\<close>), each present or not.
  Tokens with further registered claims (\<^verbatim>\<open>nbf\<close>, \<^verbatim>\<open>aud\<close>, \<^verbatim>\<open>iss\<close>) and claims of other
  JSON types, which the program never issues, have no counterpart here; what
  \<^verbatim>\<open>verify_token\<close> does with them follows from what the decoder does, as for every
  \<open>decode\<close>.
\<close>

datatype token =
    Malformed string
  | Crashing string
  | JWS string claims string

text \<open>
  The MAC (HMAC-SHA256 for \<^verbatim>\<open>HS256\<close>) is a parameter \<open>hmac\<close>: it takes the key and the
  signing input (header algorithm and claims). Nothing is assumed about it.
\<close>

type_synonym mac = "string \<Rightarrow> string \<times> claims \<Rightarrow> string"

definition jwt_encode :: "mac \<Rightarrow> claims \<Rightarrow> string \<Rightarrow> string \<Rightarrow> token" where
  "jwt_encode hmac to_encode key algorithm =
     JWS algorithm to_encode (hmac key (algorithm, to_encode))"

text \<open>
  Decoding checks, in this order: the segments, the header algorithm against the allowed
  list, the signature, and the registered claims. For \<^verbatim>\<open>exp\<close> the library computes
  \<^verbatim>\<open>int(claims["exp"])\<close>, which raises \<^verbatim>\<open>TypeError\<close> on \<^verbatim>\<open>null\<close> (only \<^verbatim>\<open>ValueError\<close> is
  caught there), and raises \<^verbatim>\<open>ExpiredSignatureError\<close> when \<^verbatim>\<open>exp < now\<close>; a token with
  no \<^verbatim>\<open>exp\<close> passes.
\<close>

definition jwt_decode :: "mac \<Rightarrow> int \<Rightarrow> token \<Rightarrow> string \<Rightarrow> string list \<Rightarrow> exception + claims" where
  "jwt_decode hmac now tok key algorithms =
     (case tok of
        Malformed _ \<Rightarrow> Inl (JWTError ''Not enough segments'')
      | Crashing _ \<Rightarrow> Inl (RecursionError ''maximum recursion depth exceeded'')
      | JWS alg payload signature \<Rightarrow>
          if alg \<notin> set algorithms then Inl (JWTError ''The specified alg value is not allowed'')
          else if signature \<noteq> hmac key (alg, payload) then Inl (JWTError ''Signature verification failed.'')
          else (case exp payload of
                  None \<Rightarrow> Inr payload
                | Some Null \<Rightarrow> Inl (TypeError (''int() argument must be a string, a bytes-like object or a real number, not ''
                                        @ [CHR 0x27] @ ''NoneType'' @ [CHR 0x27]))
                | Some (Seconds e) \<Rightarrow>
                    if e < now then Inl (ExpiredSignatureError ''Signature has expired.'')
                    else Inr payload))"

text \<open>
  \<^verbatim>\<open>create_access_token(data, expires_delta)\<close>, lines 117--126. \<open>now\<close> is the reading of
  \<^verbatim>\<open>datetime.utcnow()\<close>, \<open>expires_delta\<close> a number of seconds; \<^verbatim>\<open>if expires_delta:\<close> is
  false for \<^verbatim>\<open>None\<close> and for a zero delta.
\<close>

definition create_access_token :: "mac \<Rightarrow> string \<Rightarrow> claims \<Rightarrow> int option \<Rightarrow> int \<Rightarrow> token" where
  "create_access_token hmac SECRET_KEY data expires_delta now =
     (let expire = (case expires_delta of
                      None \<Rightarrow> now + ACCESS_TOKEN_EXPIRE_MINUTES * 60
                    | Some d \<Rightarrow> if d \<noteq> 0 then now + d
                                else now + ACCESS_TOKEN_EXPIRE_MINUTES * 60);
          to_encode = data\<lparr>exp := Some (Seconds expire)\<rparr>
      in jwt_encode hmac to_encode SECRET_KEY ALGORITHM)"

text \<open>A MAC to evaluate the definitions with: the key followed by the subject.\<close>

definition keyed_tag :: mac where
  "keyed_tag key input = key @ (case sub (snd input) of None \<Rightarrow> [] | Some s \<Rightarrow> s)"

section \<open>The lead model (src/src/models.py)\<close>

datatype Source = REFERRAL | WEBSITE | COLD_CALL | EVENT

datatype Interest = LOW | MEDIUM | HIGH

datatype Status = NEW | CONTACTED | QUALIFIED | CLOSED

text \<open>
  Calling a Python enum class on a string looks the member up by value and raises
  \<^verbatim>\<open>ValueError\<close> when no member has it; \<open>None\<close> stands for that exception.
\<close>

definition Source_of :: "string \<Rightarrow> Source option" where
  "Source_of v =
     (if v = ''Referral'' then Some REFERRAL
      else if v = ''Website'' then Some WEBSITE
      else if v = ''Cold Call'' then Some COLD_CALL
      else if v = ''Event'' then Some EVENT
      else None)"

definition Interest_of :: "string \<Rightarrow> Interest option" where
  "Interest_of v =
     (if v = ''Low'' then Some LOW
      else if v = ''Medium'' then Some MEDIUM
      else if v = ''High'' then Some HIGH
      else None)"

definition Status_of :: "string \<Rightarrow> Status option" where
  "Status_of v =
     (if v = ''New'' then Some NEW
      else if v = ''Contacted'' then Some CONTACTED
      else if v = ''Qualified'' then Some QUALIFIED
      else if v = ''Closed'' then Some CLOSED
      else None)"

text \<open>Rows of the tables \<^verbatim>\<open>leads\<close> and \<^verbatim>\<open>sales_persons\<close>.\<close>

record Lead =
  Lead_id :: nat
  Lead_name :: string
  Lead_contact_information :: string
  Lead_source :: Source
  Lead_interest :: Interest
  Lead_status :: Status
  Lead_assigned_salesperson_name :: string
  Lead_salesperson_id :: "nat option"

record SalesPerson =
  SalesPerson_id :: nat
  SalesPerson_name :: string
  SalesPerson_hashed_password :: string

record database =
  leads :: "Lead list"
  sales_persons :: "SalesPerson list"

text \<open>An integer primary key left out of an insert is assigned by the store: a key above every key in use.\<close>

definition fresh_id :: "nat list \<Rightarrow> nat" where
  "fresh_id ids = Suc (fold max ids 0)"

section \<open>The import endpoint (src/src/main.py, lines 246--403)\<close>

text \<open>
  The upload is taken to be UTF-8 text. \<^verbatim>\<open>pandas.read_csv(..., dtype=str).fillna('')\<close>
  either raises or gives a frame of strings (a missing cell is the empty string, and no
  cell is trimmed). The frame is the header (its column labels) and the data rows, each
  with its index label, which is what \<^verbatim>\<open>df.iterrows()\<close> yields as \<^verbatim>\<open>index\<close>. When the
  data rows have as many fields as the header, the label of a row is its position, an
  integer from 0. When they have one field more, the first field of each row becomes its
  label and the remaining fields its cells. After the header check the code reads six
  cells of a row and no other, so the cells of a row are the record of those six.
\<close>

datatype label = IntLabel int | StrLabel string

record csv_row =
  col_Lead_Name :: string
  col_Contact_Information :: string
  col_Source :: string
  col_Interest_Level :: string
  col_Status :: string
  col_Assigned_Salesperson :: string

record dataframe =
  columns :: "string list"
  rows :: "(label \<times> csv_row) list"

datatype read_csv =
    EmptyDataError
  | ReadError string
  | DataFrame dataframe

text \<open>The labels of a frame that has none of its own: \<^verbatim>\<open>RangeIndex\<close>.\<close>

definition range_index :: "csv_row list \<Rightarrow> (label \<times> csv_row) list" where
  "range_index rs = map (\<lambda>(i, r). (IntLabel (int i), r)) (enumerate 0 rs)"

text \<open>
  The dict \<^verbatim>\<open>lead_data\<close> of lines 319--327. The key \<^verbatim>\<open>"id"\<close> is set only on the update
  path (line 340), so it is optional.
\<close>

record lead_data =
  lead_id :: "nat option"
  name :: string
  contact_information :: string
  source :: Source
  interest :: Interest
  status :: Status
  assigned_salesperson_name :: string
  salesperson_id :: "nat option"

text \<open>
  The entries of the list \<^verbatim>\<open>errors\<close>. Each constructor stands for one message text:
  \<^item> \<open>MissingRequiredField n\<close>: \<^verbatim>\<open>Row n: Missing required field (Name or Contact Info).\<close>
  \<^item> \<open>InvalidEnumValue n c v\<close>: \<^verbatim>\<open>Row n: Invalid enum value - 'v' is not a valid c\<close>
  \<^item> \<open>RowProcessingError n e\<close>: \<^verbatim>\<open>Row n: Error processing row - e\<close>
  \<^item> \<open>DatabaseError e\<close>: \<^verbatim>\<open>Database error prevented import: e\<close>
\<close>

datatype import_error =
    MissingRequiredField int
  | InvalidEnumValue int string string
  | RowProcessingError int string
  | DatabaseError string

record LoadResult =
  filename :: string
  rows_processed :: nat
  rows_imported :: nat
  rows_updated :: nat
  duplicates_found :: nat
  errors :: "import_error list"

datatype http_exception = HTTPException nat string

text \<open>Decimal digits of a number, as an f-string prints an \<^verbatim>\<open>int\<close>.\<close>

fun str_nat :: "nat \<Rightarrow> string" where
  "str_nat n =
     (if n < 10 then [''0123456789'' ! n]
      else str_nat (n div 10) @ [''0123456789'' ! (n mod 10)])"

text \<open>\<^verbatim>\<open>str(e)\<close> of an \<^verbatim>\<open>HTTPException\<close> is its status code, a colon and its detail.\<close>

fun str_http_exception :: "http_exception \<Rightarrow> string" where
  "str_http_exception (HTTPException status_code detail) = str_nat status_code @ '': '' @ detail"

definition endswith :: "string \<Rightarrow> string \<Rightarrow> bool" where
  "endswith s suffix = (length suffix \<le> length s \<and> drop (length s - length suffix) s = suffix)"

fun join :: "string \<Rightarrow> string list \<Rightarrow> string" where
  "join sep [] = []"
| "join sep [x] = x"
| "join sep (x # y # ys) = x @ sep @ join sep (y # ys)"

definition required_columns :: "string list" where
  "required_columns = [''Lead Name'', ''Contact Information'', ''Source'', ''Interest Level'',
                       ''Status'', ''Assigned Salesperson'']"

text \<open>\<^verbatim>\<open>Series.unique()\<close>: the distinct values in order of first appearance.\<close>

definition unique :: "'a list \<Rightarrow> 'a list" where
  "unique xs = rev (remdups (rev xs))"

text \<open>
  Lines 285--306: the loop over the unique salesperson names. \<^verbatim>\<open>db.add\<close> followed by
  \<^verbatim>\<open>db.flush()\<close> makes the new row, with its key, visible to the queries that follow.
\<close>

fun resolve_salespersons ::
  "string list \<Rightarrow> (string \<rightharpoonup> nat) \<Rightarrow> database \<Rightarrow> (string \<rightharpoonup> nat) \<times> database" where
  "resolve_salespersons [] salesperson_map db = (salesperson_map, db)"
| "resolve_salespersons (salesperson_name # rest) salesperson_map db =
     (if salesperson_name = [] then resolve_salespersons rest salesperson_map db
      else
        (case find (\<lambda>p. SalesPerson_name p = salesperson_name) (sales_persons db) of
           Some existing_salesperson \<Rightarrow>
             resolve_salespersons rest
               (salesperson_map(salesperson_name \<mapsto> SalesPerson_id existing_salesperson)) db
         | None \<Rightarrow>
             (let new_salesperson =
                    \<lparr>SalesPerson_id = fresh_id (map SalesPerson_id (sales_persons db)),
                     SalesPerson_name = salesperson_name,
                     SalesPerson_hashed_password = ''temporary_hash''\<rparr>
              in resolve_salespersons rest
                   (salesperson_map(salesperson_name \<mapsto> SalesPerson_id new_salesperson))
                   (db\<lparr>sales_persons := sales_persons db @ [new_salesperson]\<rparr>))))"

text \<open>
  The accumulators of the row loop (lines 264--268 and 309); \<open>row_errors\<close> is the list
  \<^verbatim>\<open>errors\<close> and \<open>duplicates\<close> the counter \<^verbatim>\<open>duplicates_found\<close>, whose names the result
  record keeps.
\<close>

record batch =
  leads_to_insert :: "lead_data list"
  leads_to_update :: "lead_data list"
  row_errors :: "import_error list"
  duplicates :: nat
  existing_contacts :: "string set"

text \<open>
  The expression \<^verbatim>\<open>index + 2\<close> of lines 330, 349 and 353. On a string label Python
  raises \<^verbatim>\<open>TypeError\<close>; \<open>Inl\<close> carries the text of that exception.
\<close>

definition row_number :: "label \<Rightarrow> string + int" where
  "row_number index =
     (case index of
        IntLabel i \<Rightarrow> Inr (i + 2)
      | StrLabel s \<Rightarrow>
          Inl (''can only concatenate str (not '' @ [CHR 0x22] @ ''int'' @ [CHR 0x22] @ '') to str''))"

text \<open>
  Lines 314--327: the cells of one row become \<^verbatim>\<open>lead_data\<close>. The three enum calls run in
  the order of the dict literal; the first one that fails raises \<^verbatim>\<open>ValueError\<close>, here
  \<open>Inl\<close> of the enum class and the cell.
\<close>

definition build_lead_data :: "(string \<rightharpoonup> nat) \<Rightarrow> csv_row \<Rightarrow> string \<times> string + lead_data" where
  "build_lead_data salesperson_map row =
     (let contact_info = col_Contact_Information row;
          salesperson_name = col_Assigned_Salesperson row;
          salesperson_id' = (if salesperson_name \<noteq> [] then salesperson_map salesperson_name else None)
      in case Source_of (col_Source row) of
           None \<Rightarrow> Inl (''Source'', col_Source row)
         | Some src \<Rightarrow>
        (case Interest_of (col_Interest_Level row) of
           None \<Rightarrow> Inl (''Interest'', col_Interest_Level row)
         | Some intr \<Rightarrow>
        (case Status_of (col_Status row) of
           None \<Rightarrow> Inl (''Status'', col_Status row)
         | Some st \<Rightarrow>
             Inr \<lparr>lead_id = None,
                  name = col_Lead_Name row,
                  contact_information = contact_info,
                  source = src,
                  interest = intr,
                  status = st,
                  assigned_salesperson_name = salesperson_name,
                  salesperson_id = salesperson_id'\<rparr>)))"

text \<open>
  The two handlers of the row's \<^verbatim>\<open>try\<close> block, lines 347--351 and 352--355. Each builds
  its message from \<^verbatim>\<open>index + 2\<close> first; an exception raised inside a handler is caught by
  no clause of the same \<^verbatim>\<open>try\<close> and leaves the loop (\<open>Inl\<close>).
\<close>

definition except_ValueError :: "label \<Rightarrow> string \<times> string \<Rightarrow> batch \<Rightarrow> string + batch" where
  "except_ValueError index ve b =
     (case row_number index of
        Inl type_error \<Rightarrow> Inl type_error
      | Inr n \<Rightarrow> Inr (b\<lparr>row_errors := row_errors b @ [InvalidEnumValue n (fst ve) (snd ve)]\<rparr>))"

definition except_Exception :: "label \<Rightarrow> string \<Rightarrow> batch \<Rightarrow> string + batch" where
  "except_Exception index e b =
     (case row_number index of
        Inl type_error \<Rightarrow> Inl type_error
      | Inr n \<Rightarrow> Inr (b\<lparr>row_errors := row_errors b @ [RowProcessingError n e]\<rparr>))"

text \<open>
  Lines 313--355, one pass of the row loop: \<open>Inr\<close> is the state the next pass starts
  from, \<open>Inl\<close> an exception that leaves the loop. Python's \<^verbatim>\<open>not s\<close> on a string is true
  for the empty string only. In the missing-field branch the message of line 330 is built
  before anything is appended, so a \<^verbatim>\<open>TypeError\<close> there goes to the handler of line 352.
  \<^verbatim>\<open>db.query(Lead)...first()\<close> is the first stored lead with the contact, if any.
\<close>

definition process_row ::
  "database \<Rightarrow> (string \<rightharpoonup> nat) \<Rightarrow> batch \<Rightarrow> label \<times> csv_row \<Rightarrow> string + batch" where
  "process_row db salesperson_map b indexed_row =
     (case build_lead_data salesperson_map (snd indexed_row) of
        Inl ve \<Rightarrow> except_ValueError (fst indexed_row) ve b
      | Inr ld \<Rightarrow>
          if name ld = [] \<or> contact_information ld = [] then
            (case row_number (fst indexed_row) of
               Inl type_error \<Rightarrow> except_Exception (fst indexed_row) type_error b
             | Inr n \<Rightarrow> Inr (b\<lparr>row_errors := row_errors b @ [MissingRequiredField n]\<rparr>))
          else if contact_information ld \<in> existing_contacts b then
            (case find (\<lambda>l. Lead_contact_information l = contact_information ld) (leads db) of
               Some existing_lead \<Rightarrow>
                 Inr (b\<lparr>duplicates := duplicates b + 1,
                        leads_to_update :=
                          leads_to_update b @ [ld\<lparr>lead_id := Some (Lead_id existing_lead)\<rparr>]\<rparr>)
             | None \<Rightarrow> Inr (b\<lparr>duplicates := duplicates b + 1\<rparr>))
          else
            Inr (b\<lparr>leads_to_insert := leads_to_insert b @ [ld],
                   existing_contacts := insert (contact_information ld) (existing_contacts b)\<rparr>))"

text \<open>
  Lines 309--355: the snapshot of the stored contacts, then \<^verbatim>\<open>df.iterrows()\<close>. The loop
  stops at the first pass that raises.
\<close>

definition initial_batch :: "database \<Rightarrow> batch" where
  "initial_batch db =
     \<lparr>leads_to_insert = [], leads_to_update = [], row_errors = [], duplicates = 0,
      existing_contacts = set (map Lead_contact_information (leads db))\<rparr>"

fun iterrows ::
  "database \<Rightarrow> (string \<rightharpoonup> nat) \<Rightarrow> batch \<Rightarrow> (label \<times> csv_row) list \<Rightarrow> string + batch" where
  "iterrows db salesperson_map b [] = Inr b"
| "iterrows db salesperson_map b (indexed_row # rest) =
     (case process_row db salesperson_map b indexed_row of
        Inl e \<Rightarrow> Inl e
      | Inr b' \<Rightarrow> iterrows db salesperson_map b' rest)"

definition process_rows ::
  "database \<Rightarrow> (string \<rightharpoonup> nat) \<Rightarrow> (label \<times> csv_row) list \<Rightarrow> string + batch" where
  "process_rows db salesperson_map rs = iterrows db salesperson_map (initial_batch db) rs"

text \<open>
  The store can refuse a statement for reasons outside the program (a lost connection, a
  constraint hit by another session). \<open>db_fault\<close> says which call of the commit step
  raises, with the text of the exception: the bulk insert, the \<open>k\<close>-th update (from 0), or
  the commit itself. A call that is not made cannot raise.
\<close>

datatype db_fault =
    BulkInsertFault string
  | UpdateFault nat string
  | CommitFault string

definition Lead_of :: "nat \<Rightarrow> lead_data \<Rightarrow> Lead" where
  "Lead_of i d =
     \<lparr>Lead_id = i, Lead_name = name d, Lead_contact_information = contact_information d,
      Lead_source = source d, Lead_interest = interest d, Lead_status = status d,
      Lead_assigned_salesperson_name = assigned_salesperson_name d,
      Lead_salesperson_id = salesperson_id d\<rparr>"

text \<open>\<^verbatim>\<open>db.bulk_insert_mappings(Lead, leads_to_insert)\<close>: one new row per mapping.\<close>

fun bulk_insert_mappings :: "database \<Rightarrow> lead_data list \<Rightarrow> database" where
  "bulk_insert_mappings db [] = db"
| "bulk_insert_mappings db (d # ds) =
     bulk_insert_mappings
       (db\<lparr>leads := leads db @
              [Lead_of (case lead_id d of
                          None \<Rightarrow> fresh_id (map Lead_id (leads db))
                        | Some i \<Rightarrow> i) d]\<rparr>) ds"

text \<open>\<^verbatim>\<open>db.query(Lead).filter(Lead.id == lead_id).update(lead_data)\<close>.\<close>

definition update_lead :: "database \<Rightarrow> nat \<Rightarrow> lead_data \<Rightarrow> database" where
  "update_lead db i d =
     db\<lparr>leads := map (\<lambda>l. if Lead_id l = i then Lead_of i d else l) (leads db)\<rparr>"

text \<open>
  Lines 381--383. \<^verbatim>\<open>lead_data.pop("id")\<close> raises \<^verbatim>\<open>KeyError\<close> on a dict without the
  key; the text of that exception is the key between single quotes. \<open>k\<close> counts the
  updates made so far.
\<close>

fun apply_updates :: "db_fault option \<Rightarrow> nat \<Rightarrow> database \<Rightarrow> lead_data list \<Rightarrow> string + database" where
  "apply_updates fault k db [] = Inr db"
| "apply_updates fault k db (d # ds) =
     (case lead_id d of
        None \<Rightarrow> Inl (CHR 0x27 # ''id'' @ [CHR 0x27])
      | Some i \<Rightarrow>
          (case fault of
             Some (UpdateFault n e) \<Rightarrow>
               if n = k then Inl e
               else apply_updates fault (Suc k) (update_lead db i (d\<lparr>lead_id := None\<rparr>)) ds
           | _ \<Rightarrow> apply_updates fault (Suc k) (update_lead db i (d\<lparr>lead_id := None\<rparr>)) ds))"

text \<open>
  Lines 371--386, the body of the second \<^verbatim>\<open>try\<close>: \<open>Inl e\<close> is an exception that reaches
  the handler of line 389, \<open>Inr\<close> the committed store with the two counts.
\<close>

definition commit_step ::
  "db_fault option \<Rightarrow> database \<Rightarrow> lead_data list \<Rightarrow> lead_data list \<Rightarrow> string + database \<times> nat \<times> nat" where
  "commit_step fault db to_insert to_update =
     (case (if to_insert \<noteq> [] then
              (case fault of
                 Some (BulkInsertFault e) \<Rightarrow> Inl e
               | _ \<Rightarrow> Inr (bulk_insert_mappings db to_insert, length to_insert))
            else Inr (db, 0)) of
        Inl e \<Rightarrow> Inl e
      | Inr (db1, imported) \<Rightarrow>
          (case (if to_update \<noteq> [] then
                   (case apply_updates fault 0 db1 to_update of
                      Inl e \<Rightarrow> Inl e
                    | Inr db2 \<Rightarrow> Inr (db2, length to_update))
                 else Inr (db1, 0)) of
             Inl e \<Rightarrow> Inl e
           | Inr (db2, updated) \<Rightarrow>
               (case fault of
                  Some (CommitFault e) \<Rightarrow> Inl e
                | _ \<Rightarrow> Inr (db2, imported, updated))))"

text \<open>
  \<^verbatim>\<open>load_data_file\<close>, for an authenticated caller. \<open>db\<close> is the committed store when
  the request starts; the second component of the result is the committed store when it
  ends. The session's work is one transaction, so a rollback and a session closed by an
  exception both leave \<open>db\<close> as it was. The \<^verbatim>\<open>HTTPException\<close> of line 280 is raised
  inside the first \<^verbatim>\<open>try\<close> and is an \<^verbatim>\<open>Exception\<close>: the handler of line 360 catches it and
  raises the one the caller sees. The same handler catches an exception that leaves the
  row loop.
\<close>

definition load_data_file ::
  "string \<Rightarrow> read_csv \<Rightarrow> database \<Rightarrow> db_fault option \<Rightarrow> (http_exception + LoadResult) \<times> database" where
  "load_data_file file_name parsed db fault =
     (if \<not> endswith file_name ''.csv'' then
        (Inl (HTTPException 400 ''Invalid file type. Please upload a CSV file.''), db)
      else
        (case parsed of
           EmptyDataError \<Rightarrow> (Inl (HTTPException 400 ''CSV file is empty.''), db)
         | ReadError e \<Rightarrow> (Inl (HTTPException 400 (''Error processing CSV file: '' @ e)), db)
         | DataFrame df \<Rightarrow>
             if \<not> list_all (\<lambda>col. col \<in> set (columns df)) required_columns then
               (let missing = filter (\<lambda>col. col \<notin> set (columns df)) required_columns;
                    e = HTTPException 400
                          (''Missing required columns in CSV: '' @ join '', '' missing)
                in (Inl (HTTPException 400
                           (''Error processing CSV file: '' @ str_http_exception e)), db))
             else
               (let unique_salespersons =
                      unique (map (\<lambda>indexed_row. col_Assigned_Salesperson (snd indexed_row)) (rows df));
                    (salesperson_map, db1) = resolve_salespersons unique_salespersons Map.empty db
                in case process_rows db1 salesperson_map (rows df) of
                     Inl e \<Rightarrow> (Inl (HTTPException 400 (''Error processing CSV file: '' @ e)), db)
                   | Inr b \<Rightarrow>
                       (case commit_step fault db1 (leads_to_insert b) (leads_to_update b) of
                          Inr (db2, imported, updated) \<Rightarrow>
                            (Inr \<lparr>filename = file_name, rows_processed = length (rows df),
                                  rows_imported = imported, rows_updated = updated,
                                  duplicates_found = duplicates b, errors = row_errors b\<rparr>, db2)
                        | Inl e \<Rightarrow>
                            (Inr \<lparr>filename = file_name, rows_processed = length (rows df),
                                  rows_imported = 0, rows_updated = 0,
                                  duplicates_found = duplicates b,
                                  errors = row_errors b @ [DatabaseError e]\<rparr>, db)))))"

section \<open>Invariants used in the proofs\<close>

text \<open>The key and the contact of every stored lead, in table order.\<close>

definition lead_keys :: "database \<Rightarrow> (nat \<times> string) list" where
  "lead_keys db = map (\<lambda>l. (Lead_id l, Lead_contact_information l)) (leads db)"

text \<open>
  What the row loop keeps true of its accumulators: the running set holds every stored
  contact; the rows to insert have pairwise different contacts, none of them stored and
  each in the running set, and carry no key; every row to update carries the key of a
  stored lead with the same contact.
\<close>

definition batch_inv :: "database \<Rightarrow> batch \<Rightarrow> bool" where
  "batch_inv db b \<longleftrightarrow>
     Lead_contact_information ` set (leads db) \<subseteq> existing_contacts b
   \<and> distinct (map contact_information (leads_to_insert b))
   \<and> (\<forall>d\<in>set (leads_to_insert b).
         lead_id d = None \<and> contact_information d \<in> existing_contacts b
         \<and> contact_information d \<notin> Lead_contact_information ` set (leads db))
   \<and> (\<forall>u\<in>set (leads_to_update b).
         \<exists>i. lead_id u = Some i \<and> (i, contact_information u) \<in> set (lead_keys db))"

section \<open>Properties of the token functions\<close>

lemma verify_token_JWS:
  "verify_token (jwt_decode hmac) k (JWS alg cl sg) now =
     (if alg \<noteq> ALGORITHM \<or> sg \<noteq> hmac k (alg, cl) then Inr None
      else case exp cl of
             Some Null \<Rightarrow>
               Inl (TypeError (''int() argument must be a string, a bytes-like object or a real number, not ''
                               @ [CHR 0x27] @ ''NoneType'' @ [CHR 0x27]))
           | Some (Seconds e) \<Rightarrow>
               if e < now then Inr None
               else (case sub cl of None \<Rightarrow> Inr None
                     | Some s \<Rightarrow> Inr (Some \<lparr>email = s, exp_claim = Some e\<rparr>))
           | None \<Rightarrow>
               (case sub cl of None \<Rightarrow> Inr None
                | Some s \<Rightarrow> Inr (Some \<lparr>email = s, exp_claim = None\<rparr>)))"
  by (auto simp: verify_token_def jwt_decode_def split: option.splits claim_time.splits)

text \<open>
  Claim C6, as the code has it. A token issued for a subject at time \<open>t\<close> validates to
  that subject, with the expiry \<open>t + ttl\<close>, at every \<open>now\<close> up to and including the
  expiry, and to nothing after it; \<open>ttl\<close> is the delta passed in, or 30 minutes when none
  (or zero) is. A token whose signature is not the MAC of its header and claims under the
  key validates to nothing.
\<close>

theorem token_round_trip:
  "verify_token (jwt_decode hmac) key
     (create_access_token hmac key \<lparr>sub = Some subject, exp = x\<rparr> expires_delta t) now =
     Inr (let ttl = (case expires_delta of None \<Rightarrow> 1800 | Some d \<Rightarrow> if d \<noteq> 0 then d else 1800)
          in if now \<le> t + ttl then Some \<lparr>email = subject, exp_claim = Some (t + ttl)\<rparr> else None)
   \<and> (\<forall>alg payload signature.
        signature \<noteq> hmac key (alg, payload) \<longrightarrow>
        verify_token (jwt_decode hmac) key (JWS alg payload signature) now = Inr None)"
  by (auto simp: verify_token_JWS create_access_token_def jwt_encode_def Let_def
        ACCESS_TOKEN_EXPIRE_MINUTES_def split: option.splits)

theorem token_round_trip_witness:
  "verify_token (jwt_decode keyed_tag) ''k''
     (create_access_token keyed_tag ''k'' \<lparr>sub = Some ''ann'', exp = None\<rparr> (Some 60) 1000) 1059
     = Inr (Some \<lparr>email = ''ann'', exp_claim = Some 1060\<rparr>)
   \<and> verify_token (jwt_decode keyed_tag) ''k''
     (create_access_token keyed_tag ''k'' \<lparr>sub = Some ''ann'', exp = None\<rparr> (Some 60) 1000) 1061
     = Inr None
   \<and> ''forged'' \<noteq> keyed_tag ''k'' (ALGORITHM, \<lparr>sub = Some ''ann'', exp = Some (Seconds 1060)\<rparr>)
   \<and> verify_token (jwt_decode keyed_tag) ''k''
       (JWS ALGORITHM \<lparr>sub = Some ''ann'', exp = Some (Seconds 1060)\<rparr> ''forged'') 1059 = Inr None"
  using token_round_trip [of keyed_tag "''k''" "''ann''" None "Some 60" 1000 1059]
    token_round_trip [of keyed_tag "''k''" "''ann''" None "Some 60" 1000 1061]
  by (simp add: keyed_tag_def)

text \<open>
  The claim as written says validation fails when \<open>now \<ge> expiry\<close>. At \<open>now = expiry\<close> it
  succeeds: a token issued at time 0 with the default lifetime is still accepted at
  second 1800.
\<close>

theorem token_valid_at_expiry:
  "verify_token (jwt_decode keyed_tag) ''k''
     (create_access_token keyed_tag ''k'' \<lparr>sub = Some ''admin@example.com'', exp = None\<rparr> None 0)
     1800
   = Inr (Some \<lparr>email = ''admin@example.com'', exp_claim = Some 1800\<rparr>)"
  by (simp add: verify_token_JWS create_access_token_def jwt_encode_def Let_def
        ACCESS_TOKEN_EXPIRE_MINUTES_def)

text \<open>
  Claim C7, as the code has it. Whatever the decoder does with a token,
  \<^verbatim>\<open>verify_token\<close> returns \<^verbatim>\<open>None\<close> exactly when the decoder raises a \<^verbatim>\<open>JWTError\<close> or
  returns claims without \<^verbatim>\<open>sub\<close>. With the library's decoder, a malformed token gives
  \<^verbatim>\<open>None\<close>, and a token of three well-formed parts whose \<^verbatim>\<open>exp\<close> is not \<^verbatim>\<open>null\<close> gives
  \<^verbatim>\<open>None\<close> exactly when its algorithm is not \<^verbatim>\<open>HS256\<close>, its signature is wrong, its
  expiry is before \<open>now\<close>, or it carries no \<^verbatim>\<open>sub\<close> claim.
\<close>

theorem verify_token_None_iff:
  "(verify_token decode key tok now = Inr None \<longleftrightarrow>
      (case decode now tok key [ALGORITHM] of
         Inl e \<Rightarrow> isinstance_JWTError e
       | Inr payload \<Rightarrow> sub payload = None))
   \<and> verify_token (jwt_decode hmac) key (Malformed text) now = Inr None
   \<and> (exp payload \<noteq> Some Null \<longrightarrow>
        (verify_token (jwt_decode hmac) key (JWS alg payload signature) now = Inr None \<longleftrightarrow>
           alg \<noteq> ALGORITHM \<or> signature \<noteq> hmac key (alg, payload)
           \<or> (case exp payload of Some (Seconds e) \<Rightarrow> e < now | _ \<Rightarrow> False)
           \<or> sub payload = None))"
proof (intro conjI impI)
  show "verify_token decode key tok now = Inr None \<longleftrightarrow>
      (case decode now tok key [ALGORITHM] of
         Inl e \<Rightarrow> isinstance_JWTError e
       | Inr payload \<Rightarrow> sub payload = None)"
    by (auto simp: verify_token_def split: sum.splits option.splits)
  show "verify_token (jwt_decode hmac) key (Malformed text) now = Inr None"
    by (simp add: verify_token_def jwt_decode_def)
  assume "exp payload \<noteq> Some Null"
  then show "verify_token (jwt_decode hmac) key (JWS alg payload signature) now = Inr None \<longleftrightarrow>
           alg \<noteq> ALGORITHM \<or> signature \<noteq> hmac key (alg, payload)
           \<or> (case exp payload of Some (Seconds e) \<Rightarrow> e < now | _ \<Rightarrow> False)
           \<or> sub payload = None"
    by (auto simp: verify_token_JWS split: option.splits claim_time.splits)
qed

theorem verify_token_None_iff_witness:
  "verify_token (jwt_decode keyed_tag) ''k'' (Malformed ''not.a.token'') 5 = Inr None
   \<and> verify_token (jwt_decode keyed_tag) ''k''
        (JWS ''none'' \<lparr>sub = Some ''ann'', exp = Some (Seconds 9)\<rparr> []) 5 = Inr None
   \<and> verify_token (jwt_decode keyed_tag) ''k''
        (JWS ALGORITHM \<lparr>sub = Some ''ann'', exp = Some (Seconds 9)\<rparr> ''kann'') 10 = Inr None
   \<and> verify_token (jwt_decode keyed_tag) ''k''
        (JWS ALGORITHM \<lparr>sub = Some ''ann'', exp = Some (Seconds 9)\<rparr> ''kann'') 5 \<noteq> Inr None"
  using verify_token_None_iff [of "jwt_decode keyed_tag" "''k''" "Malformed ''not.a.token''" 5
      keyed_tag "''not.a.token''" "\<lparr>sub = Some ''ann'', exp = Some (Seconds 9)\<rparr>" "''none''" "[]"]
    verify_token_None_iff [of "jwt_decode keyed_tag" "''k''" "Malformed ''not.a.token''" 10
      keyed_tag "''not.a.token''" "\<lparr>sub = Some ''ann'', exp = Some (Seconds 9)\<rparr>" ALGORITHM "''kann''"]
    verify_token_None_iff [of "jwt_decode keyed_tag" "''k''" "Malformed ''not.a.token''" 5
      keyed_tag "''not.a.token''" "\<lparr>sub = Some ''ann'', exp = Some (Seconds 9)\<rparr>" ALGORITHM "''kann''"]
  by (simp add: keyed_tag_def ALGORITHM_def)

text \<open>
  The claim as written lists three causes of \<^verbatim>\<open>None\<close>, puts the expiry test at
  \<open>expiry \<le> now\<close>, and says that nothing is raised. A well-formed, correctly signed token
  that expires at second 100 and has no \<^verbatim>\<open>sub\<close> claim is decoded at second 0 and still
  yields \<^verbatim>\<open>None\<close>; a token with a subject that expires at second 100 does not yield
  \<^verbatim>\<open>None\<close> at second 100; on a correctly signed token whose \<^verbatim>\<open>exp\<close> is \<^verbatim>\<open>null\<close> the
  \<^verbatim>\<open>TypeError\<close> of the decoder leaves \<^verbatim>\<open>verify_token\<close>, and so does the
  \<^verbatim>\<open>RecursionError\<close> on a text with a deeply nested header.
\<close>

theorem verify_token_None_other_cause:
  "jwt_decode keyed_tag 0 (jwt_encode keyed_tag \<lparr>sub = None, exp = Some (Seconds 100)\<rparr> ''k'' ALGORITHM)
       ''k'' [ALGORITHM] = Inr \<lparr>sub = None, exp = Some (Seconds 100)\<rparr>
   \<and> verify_token (jwt_decode keyed_tag) ''k''
       (jwt_encode keyed_tag \<lparr>sub = None, exp = Some (Seconds 100)\<rparr> ''k'' ALGORITHM) 0 = Inr None
   \<and> verify_token (jwt_decode keyed_tag) ''k''
       (jwt_encode keyed_tag \<lparr>sub = Some ''ann'', exp = Some (Seconds 100)\<rparr> ''k'' ALGORITHM) 100
     = Inr (Some \<lparr>email = ''ann'', exp_claim = Some 100\<rparr>)
   \<and> verify_token (jwt_decode keyed_tag) ''k''
       (jwt_encode keyed_tag \<lparr>sub = Some ''ann'', exp = Some Null\<rparr> ''k'' ALGORITHM) 0
     = Inl (TypeError (''int() argument must be a string, a bytes-like object or a real number, not ''
                       @ [CHR 0x27] @ ''NoneType'' @ [CHR 0x27]))
   \<and> verify_token (jwt_decode keyed_tag) ''k'' (Crashing ''deeply nested header'') 0
     = Inl (RecursionError ''maximum recursion depth exceeded'')"
  by (simp add: verify_token_def jwt_decode_def jwt_encode_def)

section \<open>Properties of the import\<close>

subsection \<open>One row\<close>

lemma build_lead_data_Inr_fields:
  "build_lead_data m r = Inr ld \<Longrightarrow>
   name ld = col_Lead_Name r \<and> contact_information ld = col_Contact_Information r
   \<and> lead_id ld = None
   \<and> assigned_salesperson_name ld = col_Assigned_Salesperson r
   \<and> salesperson_id ld = (if col_Assigned_Salesperson r \<noteq> [] then m (col_Assigned_Salesperson r) else None)"
  by (auto simp: build_lead_data_def Let_def split: option.splits)

lemma process_row_valid:
  assumes "build_lead_data m (snd x) = Inr ld" and "name ld \<noteq> []" and "contact_information ld \<noteq> []"
  shows "process_row db m b x =
     Inr (if contact_information ld \<in> existing_contacts b then
            (case find (\<lambda>l. Lead_contact_information l = contact_information ld) (leads db) of
               Some existing_lead \<Rightarrow>
                 b\<lparr>duplicates := duplicates b + 1,
                   leads_to_update :=
                     leads_to_update b @ [ld\<lparr>lead_id := Some (Lead_id existing_lead)\<rparr>]\<rparr>
             | None \<Rightarrow> b\<lparr>duplicates := duplicates b + 1\<rparr>)
          else
            b\<lparr>leads_to_insert := leads_to_insert b @ [ld],
              existing_contacts := insert (contact_information ld) (existing_contacts b)\<rparr>)"
  using assms by (simp add: process_row_def split: option.splits)

lemma missing_nonempty_iff:
  "filter (\<lambda>col. col \<notin> set cs) req \<noteq> [] \<longleftrightarrow> \<not> list_all (\<lambda>col. col \<in> set cs) req"
  by (induction req) auto

subsection \<open>The row loop\<close>

lemma iterrows_append:
  "iterrows db m b (xs @ ys) =
     (case iterrows db m b xs of Inl e \<Rightarrow> Inl e | Inr b' \<Rightarrow> iterrows db m b' ys)"
  by (induction xs arbitrary: b) (auto split: sum.splits)

lemma process_rows_Suc:
  assumes "j < length rs"
  shows "process_rows db m (take (Suc j) rs) =
         (case process_rows db m (take j rs) of
            Inl e \<Rightarrow> Inl e
          | Inr b \<Rightarrow> process_row db m b (rs ! j))"
  using assms
  by (simp add: process_rows_def take_Suc_conv_app_nth iterrows_append split: sum.splits)

lemma process_rows_step:
  assumes "j < length rs" and "process_rows db m (take j rs) = Inr b"
  shows "process_rows db m (take (Suc j) rs) = process_row db m b (rs ! j)"
  using process_rows_Suc [OF assms(1), of db m] assms(2) by simp

lemma process_rows_0: "process_rows db m [] = Inr (initial_batch db)"
  by (simp add: process_rows_def)

lemma process_row_grows:
  assumes "process_row db m b x = Inr b'"
  shows "existing_contacts b \<subseteq> existing_contacts b'
   \<and> set (leads_to_insert b) \<subseteq> set (leads_to_insert b')
   \<and> set (leads_to_update b) \<subseteq> set (leads_to_update b')"
  using assms
  by (auto simp: process_row_def except_ValueError_def except_Exception_def
           split: sum.splits option.splits if_splits)

lemma process_rows_prefix:
  assumes "k \<le> k'" and "k' \<le> length rs" and "process_rows db m (take k' rs) = Inr b'"
  shows "\<exists>b. process_rows db m (take k rs) = Inr b
           \<and> existing_contacts b \<subseteq> existing_contacts b'
           \<and> set (leads_to_insert b) \<subseteq> set (leads_to_insert b')
           \<and> set (leads_to_update b) \<subseteq> set (leads_to_update b')"
  using assms
proof (induction k' arbitrary: b')
  case 0
  then show ?case by simp
next
  case (Suc k')
  show ?case
  proof (cases "k = Suc k'")
    case True
    with Suc.prems(3) show ?thesis by simp
  next
    case False
    with Suc.prems have le: "k \<le> k'" and lt: "k' < length rs" and le': "k' \<le> length rs"
      by simp_all
    from Suc.prems(3) obtain b1 where b1: "process_rows db m (take k' rs) = Inr b1"
      and step: "process_row db m b1 (rs ! k') = Inr b'"
      unfolding process_rows_Suc [OF lt] by (auto split: sum.splits)
    from Suc.IH [OF le le' b1] process_row_grows [OF step]
    show ?thesis by blast
  qed
qed

lemma earlier_valid_row_contact_known:
  assumes "i < j" and "j \<le> length rs"
    and "build_lead_data m (snd (rs ! i)) = Inr ld" and "name ld \<noteq> []"
    and "contact_information ld \<noteq> []"
    and "process_rows db m (take j rs) = Inr b"
  shows "contact_information ld \<in> existing_contacts b"
proof -
  from assms have lt: "i < length rs" and le: "Suc i \<le> j" by simp_all
  from process_rows_prefix [OF le assms(2,6)]
  obtain b2 where b2: "process_rows db m (take (Suc i) rs) = Inr b2"
    and sub: "existing_contacts b2 \<subseteq> existing_contacts b" by blast
  from b2 obtain b1 where b1: "process_rows db m (take i rs) = Inr b1"
    and step: "process_row db m b1 (rs ! i) = Inr b2"
    unfolding process_rows_Suc [OF lt] by (auto split: sum.splits)
  from step have "contact_information ld \<in> existing_contacts b2"
    by (auto simp: process_row_valid [OF assms(3-5)] split: option.splits if_splits)
  with sub show ?thesis by blast
qed

lemma find_None_contact:
  "find (\<lambda>l. Lead_contact_information l = c) ls = None
     \<longleftrightarrow> c \<notin> set (map Lead_contact_information ls)"
  by (induction ls) auto

lemma in_file_duplicate_row:
  assumes "i < j" and "j < length rs"
    and "build_lead_data m (snd (rs ! i)) = Inr ld\<^sub>1" and "name ld\<^sub>1 \<noteq> []"
    and "build_lead_data m (snd (rs ! j)) = Inr ld\<^sub>2" and "name ld\<^sub>2 \<noteq> []"
    and "contact_information ld\<^sub>2 \<noteq> []"
    and "contact_information ld\<^sub>1 = contact_information ld\<^sub>2"
    and "contact_information ld\<^sub>2 \<notin> set (map Lead_contact_information (leads db))"
    and "process_rows db m (take j rs) = Inr b"
  shows "process_rows db m (take (Suc j) rs) = Inr (b\<lparr>duplicates := duplicates b + 1\<rparr>)"
proof -
  have "contact_information ld\<^sub>2 \<in> existing_contacts b"
    using earlier_valid_row_contact_known [of i j rs m ld\<^sub>1 db b] assms by simp
  moreover have "find (\<lambda>l. Lead_contact_information l = contact_information ld\<^sub>2) (leads db) = None"
    by (rule find_None_contact [THEN iffD2, OF assms(9)])
  moreover have "process_rows db m (take (Suc j) rs) = process_row db m b (rs ! j)"
    by (rule process_rows_step [OF assms(2,10)])
  ultimately show ?thesis
    by (simp add: process_row_valid [OF assms(5-7)])
qed

lemma batch_inv_initial: "batch_inv db (initial_batch db)"
  by (simp add: batch_inv_def initial_batch_def)

lemma find_contact_Some:
  "find (\<lambda>l. Lead_contact_information l = c) ls = Some l
     \<Longrightarrow> l \<in> set ls \<and> Lead_contact_information l = c"
  by (induction ls) (auto split: if_splits)

lemma batch_inv_process_row:
  assumes "batch_inv db b" and "process_row db m b x = Inr b'"
  shows "batch_inv db b'"
proof (cases "build_lead_data m (snd x)")
  case (Inl ve)
  with assms show ?thesis
    by (auto simp: process_row_def batch_inv_def except_ValueError_def split: sum.splits)
next
  case (Inr ld)
  then have id: "lead_id ld = None"
    by (simp add: build_lead_data_Inr_fields)
  show ?thesis
  proof (cases "name ld = [] \<or> contact_information ld = []")
    case True
    with assms Inr show ?thesis
      by (auto simp: process_row_def batch_inv_def except_Exception_def split: sum.splits)
  next
    case False
    with assms(2) process_row_valid [OF Inr, of db b]
    have b': "b' = (if contact_information ld \<in> existing_contacts b then
            (case find (\<lambda>l. Lead_contact_information l = contact_information ld) (leads db) of
               Some existing_lead \<Rightarrow>
                 b\<lparr>duplicates := duplicates b + 1,
                   leads_to_update :=
                     leads_to_update b @ [ld\<lparr>lead_id := Some (Lead_id existing_lead)\<rparr>]\<rparr>
             | None \<Rightarrow> b\<lparr>duplicates := duplicates b + 1\<rparr>)
          else
            b\<lparr>leads_to_insert := leads_to_insert b @ [ld],
              existing_contacts := insert (contact_information ld) (existing_contacts b)\<rparr>)"
      by simp
    show ?thesis
    proof (cases "find (\<lambda>l. Lead_contact_information l = contact_information ld) (leads db)")
      case None
      then have "contact_information ld \<notin> Lead_contact_information ` set (leads db)"
        using find_None_contact [of "contact_information ld" "leads db"] by simp
      with assms(1) id None show ?thesis
        unfolding b' batch_inv_def by auto
    next
      case (Some l)
      from find_contact_Some [OF Some]
      have "(Lead_id l, contact_information ld) \<in> set (lead_keys db)"
        by (force simp: lead_keys_def)
      moreover from find_contact_Some [OF Some] assms(1)
      have "contact_information ld \<in> existing_contacts b"
        by (auto simp: batch_inv_def)
      ultimately show ?thesis
        using assms(1) Some unfolding b' batch_inv_def by auto
    qed
  qed
qed

lemma batch_inv_iterrows:
  "batch_inv db b \<Longrightarrow> iterrows db m b xs = Inr b' \<Longrightarrow> batch_inv db b'"
proof (induction xs arbitrary: b)
  case Nil
  then show ?case by simp
next
  case (Cons x xs)
  from Cons.prems(2) obtain b1 where b1: "process_row db m b x = Inr b1"
    and rest: "iterrows db m b1 xs = Inr b'"
    by (auto split: sum.splits)
  from batch_inv_process_row [OF Cons.prems(1) b1] rest show ?case
    by (rule Cons.IH)
qed

lemma batch_inv_process_rows: "process_rows db m rs = Inr b \<Longrightarrow> batch_inv db b"
  unfolding process_rows_def by (rule batch_inv_iterrows [OF batch_inv_initial])

lemma process_row_contacts_origin:
  assumes "process_row db m b x = Inr b'" and "c \<in> existing_contacts b'"
  shows "c \<in> existing_contacts b
     \<or> (\<exists>ld. build_lead_data m (snd x) = Inr ld \<and> name ld \<noteq> [] \<and> contact_information ld = c)"
  using assms
  by (cases "build_lead_data m (snd x)")
     (auto simp: process_row_def except_ValueError_def except_Exception_def
           split: if_splits option.splits sum.splits)

lemma known_contact_origin:
  assumes "k \<le> length rs"
    and "process_rows db m (take k rs) = Inr b"
    and "c \<in> existing_contacts b"
  shows "c \<in> set (map Lead_contact_information (leads db))
     \<or> (\<exists>i<k. \<exists>ld. build_lead_data m (snd (rs ! i)) = Inr ld \<and> name ld \<noteq> []
                  \<and> contact_information ld = c)"
  using assms
proof (induction k arbitrary: b)
  case 0
  then show ?case by (auto simp: process_rows_0 initial_batch_def)
next
  case (Suc k)
  then have lt: "k < length rs" and le: "k \<le> length rs" by simp_all
  from Suc.prems(2) obtain b1 where b1: "process_rows db m (take k rs) = Inr b1"
    and step: "process_row db m b1 (rs ! k) = Inr b"
    unfolding process_rows_Suc [OF lt] by (auto split: sum.splits)
  from process_row_contacts_origin [OF step Suc.prems(3)]
  show ?case
  proof
    assume "c \<in> existing_contacts b1"
    from Suc.IH [OF le b1 this] show ?thesis
      using less_Suc_eq by auto
  next
    assume "\<exists>ld. build_lead_data m (snd (rs ! k)) = Inr ld \<and> name ld \<noteq> [] \<and> contact_information ld = c"
    then show ?thesis by blast
  qed
qed

lemma persisted_contacts_known:
  assumes "process_rows db m rs = Inr b"
  shows "set (map Lead_contact_information (leads db)) \<subseteq> existing_contacts b"
  using batch_inv_process_rows [OF assms] by (simp add: batch_inv_def)

lemma persisted_contact_update:
  assumes "i < length rs"
    and "build_lead_data m (snd (rs ! i)) = Inr ld" and "name ld \<noteq> []"
    and "contact_information ld \<noteq> []"
    and "find (\<lambda>l. Lead_contact_information l = contact_information ld) (leads db) = Some l"
    and "process_rows db m rs = Inr b"
  shows "ld\<lparr>lead_id := Some (Lead_id l)\<rparr> \<in> set (leads_to_update b)
       \<and> (\<forall>d\<in>set (leads_to_insert b). contact_information d \<noteq> contact_information ld)"
proof -
  let ?c = "contact_information ld"
  from assms(1) have le: "Suc i \<le> length rs" by simp
  from assms(6) have full: "process_rows db m (take (length rs) rs) = Inr b" by simp
  from process_rows_prefix [OF le order_refl full]
  obtain b2 where b2: "process_rows db m (take (Suc i) rs) = Inr b2"
    and sub: "set (leads_to_update b2) \<subseteq> set (leads_to_update b)" by blast
  from b2 obtain b1 where b1: "process_rows db m (take i rs) = Inr b1"
    and step: "process_row db m b1 (rs ! i) = Inr b2"
    unfolding process_rows_Suc [OF assms(1)] by (auto split: sum.splits)
  from find_contact_Some [OF assms(5)]
  have persisted: "?c \<in> set (map Lead_contact_information (leads db))" by force
  with persisted_contacts_known [OF b1] have "?c \<in> existing_contacts b1" by blast
  with step assms(5) have "ld\<lparr>lead_id := Some (Lead_id l)\<rparr> \<in> set (leads_to_update b2)"
    by (auto simp: process_row_valid [OF assms(2-4)])
  with sub have upd: "ld\<lparr>lead_id := Some (Lead_id l)\<rparr> \<in> set (leads_to_update b)" by blast
  have "batch_inv db b" using assms(6) by (rule batch_inv_process_rows)
  with persisted have "\<forall>d\<in>set (leads_to_insert b). contact_information d \<noteq> ?c"
    by (auto simp: batch_inv_def)
  with upd show ?thesis by blast
qed

subsection \<open>The commit step\<close>

lemma fold_max_bounds:
  "(a::nat) \<le> fold max ids a \<and> (\<forall>x\<in>set ids. x \<le> fold max ids a)"
proof (induction ids arbitrary: a)
  case Nil
  then show ?case by simp
next
  case (Cons y ys)
  from Cons.IH [of "max y a"] show ?case by auto
qed

lemma fresh_id_notin: "fresh_id ids \<notin> set ids"
  using fold_max_bounds [of 0 ids] by (auto simp: fresh_id_def)

lemma bulk_insert_mappings_keys:
  assumes "distinct (map fst (lead_keys db))" and "distinct (map snd (lead_keys db))"
    and "\<forall>d\<in>set ds. lead_id d = None \<and> contact_information d \<notin> snd ` set (lead_keys db)"
    and "distinct (map contact_information ds)"
  shows "distinct (map fst (lead_keys (bulk_insert_mappings db ds)))
       \<and> distinct (map snd (lead_keys (bulk_insert_mappings db ds)))
       \<and> set (lead_keys db) \<subseteq> set (lead_keys (bulk_insert_mappings db ds))"
  using assms
proof (induction ds arbitrary: db)
  case Nil
  then show ?case by simp
next
  case (Cons d ds)
  let ?db = "db\<lparr>leads := leads db @ [Lead_of (fresh_id (map Lead_id (leads db))) d]\<rparr>"
  have keys: "lead_keys ?db = lead_keys db @ [(fresh_id (map fst (lead_keys db)), contact_information d)]"
    by (simp add: lead_keys_def Lead_of_def comp_def)
  have step: "bulk_insert_mappings db (d # ds) = bulk_insert_mappings ?db ds"
    using Cons.prems(3) by simp
  have a: "distinct (map fst (lead_keys ?db))"
    using Cons.prems(1) fresh_id_notin [of "map fst (lead_keys db)"] by (simp add: keys)
  have b: "distinct (map snd (lead_keys ?db))"
    using Cons.prems(2,3) by (simp add: keys)
  have c: "\<forall>e\<in>set ds. lead_id e = None \<and> contact_information e \<notin> snd ` set (lead_keys ?db)"
  proof
    fix e assume e: "e \<in> set ds"
    with Cons.prems(3) have "lead_id e = None"
      and "contact_information e \<notin> snd ` set (lead_keys db)" by simp_all
    moreover from e Cons.prems(4) have "contact_information e \<noteq> contact_information d"
      by (metis distinct.simps(2) image_eqI list.simps(9) set_map)
    ultimately show "lead_id e = None \<and> contact_information e \<notin> snd ` set (lead_keys ?db)"
      by (simp add: keys)
  qed
  have e: "distinct (map contact_information ds)"
    using Cons.prems(4) by simp
  from Cons.IH [OF a b c e] show ?case
    unfolding step by (auto simp: keys)
qed

lemma update_lead_keys:
  assumes "distinct (map fst (lead_keys db))" and "(i, contact_information d) \<in> set (lead_keys db)"
  shows "lead_keys (update_lead db i d) = lead_keys db"
proof -
  have "\<And>l. l \<in> set (leads db) \<Longrightarrow> Lead_id l = i
          \<Longrightarrow> Lead_contact_information l = contact_information d"
  proof -
    fix l assume "l \<in> set (leads db)" and "Lead_id l = i"
    then have "(i, Lead_contact_information l) \<in> set (lead_keys db)"
      by (force simp: lead_keys_def)
    with assms show "Lead_contact_information l = contact_information d"
      by (rule_tac eq_key_imp_eq_value)
  qed
  then show ?thesis
    by (auto simp: lead_keys_def update_lead_def Lead_of_def)
qed

lemma apply_updates_keys:
  assumes "apply_updates fault k db us = Inr db'"
    and "distinct (map fst (lead_keys db))"
    and "\<forall>u\<in>set us. \<exists>i. lead_id u = Some i \<and> (i, contact_information u) \<in> set (lead_keys db)"
  shows "lead_keys db' = lead_keys db"
  using assms
proof (induction us arbitrary: k db)
  case Nil
  then show ?case by simp
next
  case (Cons u us)
  from Cons.prems(3) obtain i where i: "lead_id u = Some i"
    and mem: "(i, contact_information u) \<in> set (lead_keys db)" by auto
  let ?db = "update_lead db i (u\<lparr>lead_id := None\<rparr>)"
  have keys: "lead_keys ?db = lead_keys db"
    using update_lead_keys [of db i "u\<lparr>lead_id := None\<rparr>"] Cons.prems(2) mem by simp
  from Cons.prems(1) i have rest: "apply_updates fault (Suc k) ?db us = Inr db'"
    by (auto split: option.splits db_fault.splits if_splits)
  from Cons.IH [OF rest] Cons.prems(2,3) keys show ?case by simp
qed

lemma commit_step_keys:
  assumes "commit_step fault db ins ups = Inr (db', imported, updated)"
    and "distinct (map fst (lead_keys db))" and "distinct (map snd (lead_keys db))"
    and "\<forall>d\<in>set ins. lead_id d = None \<and> contact_information d \<notin> snd ` set (lead_keys db)"
    and "distinct (map contact_information ins)"
    and "\<forall>u\<in>set ups. \<exists>i. lead_id u = Some i \<and> (i, contact_information u) \<in> set (lead_keys db)"
  shows "distinct (map snd (lead_keys db'))"
proof -
  let ?db1 = "if ins \<noteq> [] then bulk_insert_mappings db ins else db"
  have one: "distinct (map fst (lead_keys ?db1)) \<and> distinct (map snd (lead_keys ?db1))
             \<and> set (lead_keys db) \<subseteq> set (lead_keys ?db1)"
    using bulk_insert_mappings_keys [OF assms(2-5)] assms(2,3) by simp
  have "ups \<noteq> [] \<Longrightarrow> apply_updates fault 0 ?db1 ups = Inr db'"
    using assms(1)
    by (auto simp: commit_step_def split: if_splits option.splits db_fault.splits sum.splits)
  moreover have "ups = [] \<Longrightarrow> db' = ?db1"
    using assms(1)
    by (auto simp: commit_step_def split: if_splits option.splits db_fault.splits sum.splits)
  moreover have "\<forall>u\<in>set ups. \<exists>i. lead_id u = Some i \<and> (i, contact_information u) \<in> set (lead_keys ?db1)"
    using assms(6) one by blast
  ultimately have "lead_keys db' = lead_keys ?db1"
    using apply_updates_keys [of fault 0 ?db1 ups db'] one by (cases "ups = []") auto
  with one show ?thesis by simp
qed

lemma resolve_salespersons_leads:
  "leads (snd (resolve_salespersons ns m db)) = leads db"
  by (induction ns arbitrary: m db) (simp_all add: Let_def split: option.splits)

lemma load_data_file_unique_contacts:
  assumes "distinct (map Lead_id (leads db))"
    and "distinct (map Lead_contact_information (leads db))"
  shows "distinct (map Lead_contact_information
           (leads (snd (load_data_file file_name parsed db fault))))"
proof -
  let ?res = "load_data_file file_name parsed db fault"
  have fst_snd: "\<And>d. map fst (lead_keys d) = map Lead_id (leads d)"
    "\<And>d. map snd (lead_keys d) = map Lead_contact_information (leads d)"
    by (simp_all add: lead_keys_def comp_def)
  show ?thesis
  proof (cases "snd ?res = db")
    case True
    with assms show ?thesis by simp
  next
    case False
    then obtain df where parsed: "parsed = DataFrame df"
      by (cases parsed) (auto simp: load_data_file_def split: if_splits)
    let ?names = "unique (map (\<lambda>indexed_row. col_Assigned_Salesperson (snd indexed_row)) (rows df))"
    obtain m db1 where res: "resolve_salespersons ?names Map.empty db = (m, db1)"
      by (cases "resolve_salespersons ?names Map.empty db")
    then have leads1: "leads db1 = leads db"
      using resolve_salespersons_leads [of ?names Map.empty db] by simp
    from False parsed res obtain b db2 imported updated
      where loop: "process_rows db1 m (rows df) = Inr b"
        and commit: "commit_step fault db1 (leads_to_insert b) (leads_to_update b)
                       = Inr (db2, imported, updated)"
        and snd: "snd ?res = db2"
      by (auto simp: load_data_file_def Let_def split: if_splits sum.splits)
    have inv: "batch_inv db1 b" using loop by (rule batch_inv_process_rows)
    have "distinct (map snd (lead_keys db2))"
    proof (rule commit_step_keys [OF commit])
      show "distinct (map fst (lead_keys db1))" using assms(1) by (simp add: fst_snd leads1)
      show "distinct (map snd (lead_keys db1))" using assms(2) by (simp add: fst_snd leads1)
      show "\<forall>d\<in>set (leads_to_insert b).
              lead_id d = None \<and> contact_information d \<notin> snd ` set (lead_keys db1)"
        using inv by (auto simp: batch_inv_def lead_keys_def)
      show "distinct (map contact_information (leads_to_insert b))"
        using inv by (simp add: batch_inv_def)
      show "\<forall>u\<in>set (leads_to_update b).
              \<exists>i. lead_id u = Some i \<and> (i, contact_information u) \<in> set (lead_keys db1)"
        using inv by (simp add: batch_inv_def)
    qed
    with snd show ?thesis by (simp add: fst_snd)
  qed
qed

subsection \<open>The salesperson resolver\<close>

lemma find_Some_member: "find P xs = Some x \<Longrightarrow> x \<in> set xs \<and> P x"
  by (induction xs) (auto split: if_splits)

lemma resolve_salespersons_other:
  "n \<notin> set ns \<Longrightarrow> fst (resolve_salespersons ns m db) n = m n"
  by (induction ns arbitrary: m db) (auto simp: Let_def split: option.splits)

lemma resolve_salespersons_keeps:
  "set (sales_persons db) \<subseteq> set (sales_persons (snd (resolve_salespersons ns m db)))"
proof (induction ns arbitrary: m db)
  case Nil
  then show ?case by simp
next
  case (Cons a ns)
  show ?case
  proof (cases "a = []")
    case True
    with Cons.IH show ?thesis by simp
  next
    case False
    show ?thesis
    proof (cases "find (\<lambda>p. SalesPerson_name p = a) (sales_persons db)")
      case None
      let ?new = "\<lparr>SalesPerson_id = fresh_id (map SalesPerson_id (sales_persons db)),
                   SalesPerson_name = a, SalesPerson_hashed_password = ''temporary_hash''\<rparr>"
      let ?db = "db\<lparr>sales_persons := sales_persons db @ [?new]\<rparr>"
      let ?m = "m(a \<mapsto> SalesPerson_id ?new)"
      have step: "resolve_salespersons (a # ns) m db = resolve_salespersons ns ?m ?db"
        using None False by (simp add: Let_def)
      have "set (sales_persons db) \<subseteq> set (sales_persons ?db)" by auto
      also have "\<dots> \<subseteq> set (sales_persons (snd (resolve_salespersons ns ?m ?db)))"
        by (rule Cons.IH)
      finally show ?thesis unfolding step .
    next
      case (Some p)
      with Cons.IH False show ?thesis by simp
    qed
  qed
qed

lemma resolve_salespersons_resolves:
  assumes "n \<in> set ns" and "n \<noteq> []"
  shows "\<exists>p\<in>set (sales_persons (snd (resolve_salespersons ns m db))).
           SalesPerson_name p = n \<and> fst (resolve_salespersons ns m db) n = Some (SalesPerson_id p)"
  using assms
proof (induction ns arbitrary: m db)
  case Nil
  then show ?case by simp
next
  case (Cons a ns)
  show ?case
  proof (cases "n \<in> set ns")
    case True
    from Cons.IH [OF True Cons.prems(2)] show ?thesis
      by (auto simp: Let_def split: option.splits)
  next
    case False
    with Cons.prems have a: "a = n" and ne: "a \<noteq> []" by auto
    show ?thesis
    proof (cases "find (\<lambda>p. SalesPerson_name p = a) (sales_persons db)")
      case None
      let ?new = "\<lparr>SalesPerson_id = fresh_id (map SalesPerson_id (sales_persons db)),
                   SalesPerson_name = a, SalesPerson_hashed_password = ''temporary_hash''\<rparr>"
      let ?db = "db\<lparr>sales_persons := sales_persons db @ [?new]\<rparr>"
      let ?m = "m(a \<mapsto> SalesPerson_id ?new)"
      have step: "resolve_salespersons (a # ns) m db = resolve_salespersons ns ?m ?db"
        using None ne by (simp add: Let_def)
      have "?new \<in> set (sales_persons (snd (resolve_salespersons ns ?m ?db)))"
        using resolve_salespersons_keeps [of ?db ns ?m] by auto
      moreover have "fst (resolve_salespersons ns ?m ?db) n = Some (SalesPerson_id ?new)"
        using resolve_salespersons_other [OF False, of ?m ?db] a by simp
      ultimately show ?thesis
        unfolding step using a by (intro bexI [of _ ?new]) simp_all
    next
      case (Some p)
      let ?m = "m(a \<mapsto> SalesPerson_id p)"
      have step: "resolve_salespersons (a # ns) m db = resolve_salespersons ns ?m db"
        using Some ne by simp
      from find_Some_member [OF Some] have p: "p \<in> set (sales_persons db)" "SalesPerson_name p = n"
        using a by simp_all
      have "p \<in> set (sales_persons (snd (resolve_salespersons ns ?m db)))"
        using resolve_salespersons_keeps [of db ns ?m] p(1) by auto
      moreover have "fst (resolve_salespersons ns ?m db) n = Some (SalesPerson_id p)"
        using resolve_salespersons_other [OF False, of ?m db] a by simp
      ultimately show ?thesis
        unfolding step using p(2) by (intro bexI [of _ p]) simp_all
    qed
  qed
qed

lemma resolve_salespersons_count:
  "length (filter (\<lambda>p. SalesPerson_name p = n) (sales_persons (snd (resolve_salespersons ns m db))))
   = (if n \<in> set ns \<and> n \<noteq> [] \<and> filter (\<lambda>p. SalesPerson_name p = n) (sales_persons db) = []
      then 1 else length (filter (\<lambda>p. SalesPerson_name p = n) (sales_persons db)))"
proof (induction ns arbitrary: m db)
  case Nil
  then show ?case by simp
next
  case (Cons a ns)
  show ?case
  proof (cases "a = []")
    case True
    with Cons.IH [of m db] show ?thesis by auto
  next
    case False
    show ?thesis
    proof (cases "find (\<lambda>p. SalesPerson_name p = a) (sales_persons db)")
      case None
      let ?new = "\<lparr>SalesPerson_id = fresh_id (map SalesPerson_id (sales_persons db)),
                   SalesPerson_name = a, SalesPerson_hashed_password = ''temporary_hash''\<rparr>"
      let ?db = "db\<lparr>sales_persons := sales_persons db @ [?new]\<rparr>"
      let ?m = "m(a \<mapsto> SalesPerson_id ?new)"
      have step: "resolve_salespersons (a # ns) m db = resolve_salespersons ns ?m ?db"
        using None False by (simp add: Let_def)
      from None have none: "filter (\<lambda>p. SalesPerson_name p = a) (sales_persons db) = []"
        by (simp add: find_None_iff filter_empty_conv)
      have new: "filter (\<lambda>p. SalesPerson_name p = n) (sales_persons ?db)
                 = filter (\<lambda>p. SalesPerson_name p = n) (sales_persons db) @ (if n = a then [?new] else [])"
        by auto
      show ?thesis
        unfolding step Cons.IH [of ?m ?db] new using none False by (cases "n = a") auto
    next
      case (Some p)
      let ?m = "m(a \<mapsto> SalesPerson_id p)"
      have step: "resolve_salespersons (a # ns) m db = resolve_salespersons ns ?m db"
        using Some False by simp
      from find_Some_member [OF Some]
      have some: "filter (\<lambda>p. SalesPerson_name p = a) (sales_persons db) \<noteq> []"
        by (auto simp: filter_empty_conv)
      show ?thesis
        unfolding step Cons.IH [of ?m db] using some by (cases "n = a") auto
    qed
  qed
qed

lemma unique_set: "set (unique xs) = set xs"
  by (simp add: unique_def)

lemma unique_distinct: "distinct (unique xs)"
  by (simp add: unique_def)

lemma distinct_count_list: "distinct xs \<Longrightarrow> x \<in> set xs \<Longrightarrow> count_list xs x = 1"
  by (induction xs) auto

subsection \<open>Frames with integer labels\<close>

lemma process_row_IntLabel:
  "\<exists>b'. process_row db m b (IntLabel i, r) = Inr b'"
  by (auto simp: process_row_def except_ValueError_def except_Exception_def row_number_def
           split: sum.splits option.splits)

lemma iterrows_IntLabel:
  "\<forall>x\<in>set rs. \<exists>i. fst x = IntLabel i \<Longrightarrow> \<exists>b'. iterrows db m b rs = Inr b'"
proof (induction rs arbitrary: b)
  case Nil
  then show ?case by simp
next
  case (Cons x rs)
  then obtain i where "fst x = IntLabel i" by auto
  then have x: "x = (IntLabel i, snd x)" by (cases x) simp
  from process_row_IntLabel [of db m b i "snd x"] x
  obtain b1 where b1: "process_row db m b x = Inr b1" by auto
  from Cons.prems have "\<forall>y\<in>set rs. \<exists>i. fst y = IntLabel i" by simp
  from Cons.IH [OF this, of b1] b1 show ?case by simp
qed

lemma range_index_labels: "\<forall>x\<in>set (range_index rs). \<exists>i. fst x = IntLabel i"
  by (auto simp: range_index_def)

text \<open>
  On a frame whose labels are integers no pass of the row loop raises, the request
  returns a result, and \<^verbatim>\<open>rows_processed\<close> is the number of rows of the frame.
\<close>

lemma rows_processed_on_integer_labels:
  assumes "endswith file_name ''.csv''"
    and "list_all (\<lambda>col. col \<in> set (columns df)) required_columns"
    and "\<forall>x\<in>set (rows df). \<exists>i. fst x = IntLabel i"
  shows "\<exists>r db'. load_data_file file_name (DataFrame df) db fault = (Inr r, db')
           \<and> rows_processed r = length (rows df)"
proof -
  let ?names = "unique (map (\<lambda>indexed_row. col_Assigned_Salesperson (snd indexed_row)) (rows df))"
  obtain m db1 where res: "resolve_salespersons ?names Map.empty db = (m, db1)"
    by (cases "resolve_salespersons ?names Map.empty db")
  from iterrows_IntLabel [OF assms(3), of db1 m "initial_batch db1"]
  obtain b where b: "process_rows db1 m (rows df) = Inr b"
    by (auto simp: process_rows_def)
  from assms(1,2) res b show ?thesis
    by (auto simp: load_data_file_def Let_def split: sum.splits)
qed

lemma dropped_row_example:
  "load_data_file ''leads.csv''
     (DataFrame \<lparr>columns = required_columns,
  rows = [(IntLabel 0, \<lparr>col_Lead_Name = ''Ann'', col_Contact_Information = ''ann@example.com'',
   col_Source = ''Website'', col_Interest_Level = ''High'',
   col_Status = ''New'', col_Assigned_Salesperson = []\<rparr>),
  (IntLabel 1, \<lparr>col_Lead_Name = ''Ann B'', col_Contact_Information = ''ann@example.com'',
   col_Source = ''Event'', col_Interest_Level = ''Low'',
   col_Status = ''New'', col_Assigned_Salesperson = []\<rparr>)]\<rparr>)
     \<lparr>leads = [], sales_persons = []\<rparr> None
   = (Inr \<lparr>filename = ''leads.csv'', rows_processed = 2, rows_imported = 1, rows_updated = 0,
   duplicates_found = 1, errors = []\<rparr>,
      \<lparr>leads = [\<lparr>Lead_id = 1, Lead_name = ''Ann'', Lead_contact_information = ''ann@example.com'',
   Lead_source = WEBSITE, Lead_interest = HIGH, Lead_status = NEW,
   Lead_assigned_salesperson_name = [], Lead_salesperson_id = None\<rparr>],
        sales_persons = []\<rparr>)"
  by (simp add: load_data_file_def endswith_def required_columns_def unique_def fresh_id_def
         process_rows_def process_row_def build_lead_data_def initial_batch_def commit_step_def
         row_number_def except_ValueError_def except_Exception_def
         Source_of_def Interest_of_def Status_of_def Lead_of_def Let_def)

subsection \<open>The claims about the import\<close>

text \<open>
  Claim C1, as the code has it. On a row with an integer label (every row of a frame
  whose data rows have as many fields as the header), an empty name cell or contact cell
  rejects the row with exactly one error and changes nothing else. The error is
  \<open>MissingRequiredField\<close> when the three enum cells are valid; when one is not, the enum
  conversion has already left the \<^verbatim>\<open>try\<close> block and the error is the
  \<open>InvalidEnumValue\<close> of the first invalid cell. Cells are compared as read: nothing is
  trimmed.
\<close>

theorem empty_required_field_rejected:
  assumes "col_Lead_Name r = [] \<or> col_Contact_Information r = []"
  shows "process_row db m b (IntLabel i, r) =
     Inr (b\<lparr>row_errors := row_errors b @
         [if Source_of (col_Source r) = None then InvalidEnumValue (i + 2) ''Source'' (col_Source r)
          else if Interest_of (col_Interest_Level r) = None
            then InvalidEnumValue (i + 2) ''Interest'' (col_Interest_Level r)
          else if Status_of (col_Status r) = None
            then InvalidEnumValue (i + 2) ''Status'' (col_Status r)
          else MissingRequiredField (i + 2)]\<rparr>)"
proof (cases "build_lead_data m r")
  case (Inl ve)
  then show ?thesis
    by (auto simp: process_row_def except_ValueError_def row_number_def build_lead_data_def Let_def
             split: option.splits)
next
  case (Inr ld)
  with assms build_lead_data_Inr_fields [OF Inr] show ?thesis
    by (auto simp: process_row_def row_number_def build_lead_data_def Let_def
             split: option.splits)
qed

theorem empty_required_field_rejected_witness:
  "process_row \<lparr>leads = [], sales_persons = []\<rparr> Map.empty
      (initial_batch \<lparr>leads = [], sales_persons = []\<rparr>)
      (IntLabel 0, \<lparr>col_Lead_Name = [], col_Contact_Information = ''ann@example.com'',
   col_Source = ''Website'', col_Interest_Level = ''High'',
   col_Status = ''New'', col_Assigned_Salesperson = []\<rparr>)
   = Inr \<lparr>leads_to_insert = [],
   leads_to_update = [], row_errors = [MissingRequiredField 2], duplicates = 0,
   existing_contacts = {}\<rparr>"
  using empty_required_field_rejected [of
      "\<lparr>col_Lead_Name = [], col_Contact_Information = ''ann@example.com'',
   col_Source = ''Website'', col_Interest_Level = ''High'',
   col_Status = ''New'', col_Assigned_Salesperson = []\<rparr>"
      "\<lparr>leads = [], sales_persons = []\<rparr>" Map.empty
      "initial_batch \<lparr>leads = [], sales_persons = []\<rparr>" 0]
  by (simp add: initial_batch_def Source_of_def Interest_of_def Status_of_def)

text \<open>
  The claim as written puts the missing-field check before the enum check and trims the
  cells. A row with an empty name and the source \<^verbatim>\<open>Unknown\<close> is reported as an invalid
  enum value, not as a missing field; a row whose name is two blanks is accepted and
  queued for insertion.
\<close>

theorem missing_field_check_not_first:
  "process_row \<lparr>leads = [], sales_persons = []\<rparr> Map.empty
      (initial_batch \<lparr>leads = [], sales_persons = []\<rparr>)
      (IntLabel 0, \<lparr>col_Lead_Name = [], col_Contact_Information = ''ann@example.com'',
   col_Source = ''Unknown'', col_Interest_Level = ''High'',
   col_Status = ''New'', col_Assigned_Salesperson = []\<rparr>)
   = Inr \<lparr>leads_to_insert = [],
   leads_to_update = [], row_errors = [InvalidEnumValue 2 ''Source'' ''Unknown''], duplicates = 0,
   existing_contacts = {}\<rparr>
   \<and> process_row \<lparr>leads = [], sales_persons = []\<rparr> Map.empty
      (initial_batch \<lparr>leads = [], sales_persons = []\<rparr>)
      (IntLabel 0, \<lparr>col_Lead_Name = ''  '', col_Contact_Information = ''ann@example.com'',
   col_Source = ''Website'', col_Interest_Level = ''High'',
   col_Status = ''New'', col_Assigned_Salesperson = []\<rparr>)
   = Inr \<lparr>leads_to_insert = [\<lparr>lead_id = None, name = ''  '', contact_information = ''ann@example.com'',
   source = WEBSITE, interest = HIGH, status = NEW,
   assigned_salesperson_name = [], salesperson_id = None\<rparr>],
   leads_to_update = [], row_errors = [], duplicates = 0,
   existing_contacts = {''ann@example.com''}\<rparr>"
  by (simp add: process_row_def build_lead_data_def initial_batch_def
        row_number_def except_ValueError_def Source_of_def Interest_of_def Status_of_def)

text \<open>
  Claim C2. When the row loop has run through and the commit step raises
  (\<open>commit_step\<close> yields \<open>Inl e\<close>), the result reports no row imported and no row
  updated, its error list is the row errors followed by the one summary error, and the
  store is the one the request started with: the rollback also undoes the salespersons
  flushed earlier in the transaction.
\<close>

theorem failed_commit_reports_nothing:
  assumes "endswith file_name ''.csv''"
    and "list_all (\<lambda>col. col \<in> set (columns df)) required_columns"
    and "resolve_salespersons
           (unique (map (\<lambda>indexed_row. col_Assigned_Salesperson (snd indexed_row)) (rows df)))
           Map.empty db = (salesperson_map, db1)"
    and "process_rows db1 salesperson_map (rows df) = Inr b"
    and "commit_step fault db1 (leads_to_insert b) (leads_to_update b) = Inl e"
  shows "load_data_file file_name (DataFrame df) db fault =
     (Inr \<lparr>filename = file_name, rows_processed = length (rows df),
           rows_imported = 0, rows_updated = 0, duplicates_found = duplicates b,
           errors = row_errors b @ [DatabaseError e]\<rparr>, db)"
  using assms by (simp add: load_data_file_def Let_def)

theorem failed_commit_reports_nothing_witness:
  "load_data_file ''leads.csv''
     (DataFrame \<lparr>columns = required_columns,
  rows = [(IntLabel 0, \<lparr>col_Lead_Name = ''Ann'', col_Contact_Information = ''ann@example.com'',
   col_Source = ''Website'', col_Interest_Level = ''High'',
   col_Status = ''New'', col_Assigned_Salesperson = ''Bob''\<rparr>),
  (IntLabel 1, \<lparr>col_Lead_Name = [], col_Contact_Information = ''cy@example.com'',
   col_Source = ''Event'', col_Interest_Level = ''Low'',
   col_Status = ''New'', col_Assigned_Salesperson = []\<rparr>)]\<rparr>)
     \<lparr>leads = [], sales_persons = []\<rparr> (Some (BulkInsertFault ''connection lost''))
   = (Inr \<lparr>filename = ''leads.csv'', rows_processed = 2, rows_imported = 0, rows_updated = 0,
   duplicates_found = 0, errors = [MissingRequiredField 3, DatabaseError ''connection lost'']\<rparr>,
      \<lparr>leads = [], sales_persons = []\<rparr>)"
proof -
  let ?rows = "[(IntLabel 0, \<lparr>col_Lead_Name = ''Ann'', col_Contact_Information = ''ann@example.com'',
   col_Source = ''Website'', col_Interest_Level = ''High'',
   col_Status = ''New'', col_Assigned_Salesperson = ''Bob''\<rparr>),
  (IntLabel 1, \<lparr>col_Lead_Name = [], col_Contact_Information = ''cy@example.com'',
   col_Source = ''Event'', col_Interest_Level = ''Low'',
   col_Status = ''New'', col_Assigned_Salesperson = []\<rparr>)]"
  let ?df = "\<lparr>columns = required_columns, rows = ?rows\<rparr>"
  let ?db = "\<lparr>leads = [], sales_persons = []\<rparr>"
  let ?db1 = "\<lparr>leads = [], sales_persons = [\<lparr>SalesPerson_id = 1, SalesPerson_name = ''Bob'', SalesPerson_hashed_password = ''temporary_hash''\<rparr>]\<rparr>"
  let ?m = "[''Bob'' \<mapsto> 1::nat]"
  let ?b = "\<lparr>leads_to_insert = [\<lparr>lead_id = None, name = ''Ann'', contact_information = ''ann@example.com'',
   source = WEBSITE, interest = HIGH, status = NEW,
   assigned_salesperson_name = ''Bob'', salesperson_id = Some 1\<rparr>],
   leads_to_update = [], row_errors = [MissingRequiredField 3], duplicates = 0,
   existing_contacts = {''ann@example.com''}\<rparr>"
  have h1: "endswith ''leads.csv'' ''.csv''"
    by (simp add: endswith_def)
  have h2: "list_all (\<lambda>col. col \<in> set (columns ?df)) required_columns"
    by (simp add: required_columns_def)
  have h3: "resolve_salespersons
              (unique (map (\<lambda>indexed_row. col_Assigned_Salesperson (snd indexed_row)) (rows ?df)))
              Map.empty ?db = (?m, ?db1)"
    by (simp add: unique_def fresh_id_def)
  have h4: "process_rows ?db1 ?m (rows ?df) = Inr ?b"
    by (simp add: process_rows_def process_row_def build_lead_data_def initial_batch_def
          row_number_def except_ValueError_def except_Exception_def
          Source_of_def Interest_of_def Status_of_def)
  have h5: "commit_step (Some (BulkInsertFault ''connection lost'')) ?db1
              (leads_to_insert ?b) (leads_to_update ?b) = Inl ''connection lost''"
    by (simp add: commit_step_def)
  show ?thesis
    using failed_commit_reports_nothing [OF h1 h2 h3 h4 h5] by simp
qed

text \<open>
  Claim C3. When the row loop has run through, a valid row whose contact is that of a
  stored lead is queued as an update carrying the key of that lead, and no row queued for
  insertion has its contact. If keys and contacts are unique in the store when the
  request starts, contacts are unique in the store when it ends.
\<close>

theorem persisted_contact_never_inserted:
  assumes "i < length (rows df)"
    and "build_lead_data m (snd (rows df ! i)) = Inr ld" and "name ld \<noteq> []"
    and "contact_information ld \<noteq> []"
    and "find (\<lambda>l. Lead_contact_information l = contact_information ld) (leads db) = Some l"
    and "process_rows db m (rows df) = Inr b"
    and "distinct (map Lead_id (leads db))"
    and "distinct (map Lead_contact_information (leads db))"
  shows "ld\<lparr>lead_id := Some (Lead_id l)\<rparr> \<in> set (leads_to_update b)
       \<and> (\<forall>d\<in>set (leads_to_insert b). contact_information d \<noteq> contact_information ld)
       \<and> distinct (map Lead_contact_information
            (leads (snd (load_data_file file_name (DataFrame df) db fault))))"
  using persisted_contact_update [OF assms(1-6)]
    load_data_file_unique_contacts [OF assms(7,8)]
  by blast

theorem persisted_contact_never_inserted_witness:
  "process_rows \<lparr>leads = [\<lparr>Lead_id = 7, Lead_name = ''D'', Lead_contact_information = ''dee@example.com'',
   Lead_source = REFERRAL, Lead_interest = LOW, Lead_status = NEW,
   Lead_assigned_salesperson_name = [], Lead_salesperson_id = None\<rparr>], sales_persons = []\<rparr> Map.empty
     [(IntLabel 0, \<lparr>col_Lead_Name = ''Dee'', col_Contact_Information = ''dee@example.com'',
   col_Source = ''Event'', col_Interest_Level = ''Low'',
   col_Status = ''Qualified'', col_Assigned_Salesperson = []\<rparr>)]
   = Inr \<lparr>leads_to_insert = [],
   leads_to_update = [\<lparr>lead_id = Some 7, name = ''Dee'', contact_information = ''dee@example.com'',
   source = EVENT, interest = LOW, status = QUALIFIED,
   assigned_salesperson_name = [], salesperson_id = None\<rparr>], row_errors = [], duplicates = 1,
   existing_contacts = {''dee@example.com''}\<rparr>
   \<and> distinct (map Lead_contact_information
        (leads (snd (load_data_file ''leads.csv''
           (DataFrame \<lparr>columns = required_columns,
  rows = [(IntLabel 0, \<lparr>col_Lead_Name = ''Dee'', col_Contact_Information = ''dee@example.com'',
   col_Source = ''Event'', col_Interest_Level = ''Low'',
   col_Status = ''Qualified'', col_Assigned_Salesperson = []\<rparr>)]\<rparr>)
           \<lparr>leads = [\<lparr>Lead_id = 7, Lead_name = ''D'', Lead_contact_information = ''dee@example.com'',
   Lead_source = REFERRAL, Lead_interest = LOW, Lead_status = NEW,
   Lead_assigned_salesperson_name = [], Lead_salesperson_id = None\<rparr>], sales_persons = []\<rparr>
           None))))"
proof -
  let ?df = "\<lparr>columns = required_columns,
  rows = [(IntLabel 0, \<lparr>col_Lead_Name = ''Dee'', col_Contact_Information = ''dee@example.com'',
   col_Source = ''Event'', col_Interest_Level = ''Low'',
   col_Status = ''Qualified'', col_Assigned_Salesperson = []\<rparr>)]\<rparr>"
  let ?l = "\<lparr>Lead_id = 7, Lead_name = ''D'', Lead_contact_information = ''dee@example.com'',
   Lead_source = REFERRAL, Lead_interest = LOW, Lead_status = NEW,
   Lead_assigned_salesperson_name = [], Lead_salesperson_id = None\<rparr>"
  let ?db = "\<lparr>leads = [?l], sales_persons = []\<rparr>"
  let ?ld = "\<lparr>lead_id = None, name = ''Dee'', contact_information = ''dee@example.com'',
   source = EVENT, interest = LOW, status = QUALIFIED,
   assigned_salesperson_name = [], salesperson_id = None\<rparr>"
  let ?b = "\<lparr>leads_to_insert = [],
   leads_to_update = [\<lparr>lead_id = Some 7, name = ''Dee'', contact_information = ''dee@example.com'',
   source = EVENT, interest = LOW, status = QUALIFIED,
   assigned_salesperson_name = [], salesperson_id = None\<rparr>], row_errors = [], duplicates = 1,
   existing_contacts = {''dee@example.com''}\<rparr>"
  have h1: "0 < length (rows ?df)" by simp
  have h2: "build_lead_data Map.empty (snd (rows ?df ! 0)) = Inr ?ld"
    by (simp add: build_lead_data_def Source_of_def Interest_of_def Status_of_def)
  have h3: "name ?ld \<noteq> []" by simp
  have h4: "contact_information ?ld \<noteq> []" by simp
  have h5: "find (\<lambda>l. Lead_contact_information l = contact_information ?ld) (leads ?db) = Some ?l"
    by simp
  have h6: "process_rows ?db Map.empty (rows ?df) = Inr ?b"
    by (simp add: process_rows_def process_row_def build_lead_data_def initial_batch_def
          row_number_def except_ValueError_def except_Exception_def
          Source_of_def Interest_of_def Status_of_def)
  have h7: "distinct (map Lead_id (leads ?db))" by simp
  have h8: "distinct (map Lead_contact_information (leads ?db))" by simp
  from persisted_contact_never_inserted [OF h1 h2 h3 h4 h5 h6 h7 h8, of "''leads.csv''" None] h6
  show ?thesis by simp
qed

text \<open>
  Claim C4 says that \<^verbatim>\<open>rows_processed\<close> is the number of data rows however many of
  them fail. The handlers of lines 347--355 are there to record a failing row and go on,
  but they build their message from \<^verbatim>\<open>index + 2\<close>. On a file whose data rows have one
  field more than the header the labels are strings: the first failing row raises inside
  its handler, and the request is answered with status 400 and no result.
\<close>

theorem failing_row_under_string_label_aborts:
  "load_data_file ''leads.csv''
     (DataFrame \<lparr>columns = required_columns,
  rows = [(StrLabel ''L-1'', \<lparr>col_Lead_Name = ''Ann'', col_Contact_Information = [],
   col_Source = ''Website'', col_Interest_Level = ''High'',
   col_Status = ''New'', col_Assigned_Salesperson = ''Bob''\<rparr>)]\<rparr>)
     \<lparr>leads = [], sales_persons = []\<rparr> None
   = (Inl (HTTPException 400
             (''Error processing CSV file: '' @ ''can only concatenate str (not '' @ [CHR 0x22] @ ''int'' @ [CHR 0x22] @ '') to str'')),
      \<lparr>leads = [], sales_persons = []\<rparr>)"
  by (simp add: load_data_file_def endswith_def required_columns_def unique_def fresh_id_def
         process_rows_def process_row_def build_lead_data_def initial_batch_def commit_step_def
         row_number_def except_ValueError_def except_Exception_def
         Source_of_def Interest_of_def Status_of_def Lead_of_def Let_def)

text \<open>
  Claim C5. Let \<open>n\<close> be the salesperson cell of some row of the file. If \<open>n\<close> is
  empty, the row's \<^verbatim>\<open>salesperson_id\<close> is \<^verbatim>\<open>None\<close> and the row is built whenever its
  enum cells are valid. Otherwise \<open>n\<close> occurs once in the list of names the resolver walks
  through; afterwards the store holds as many salespersons named \<open>n\<close> as before, or one
  if it held none; and one of them gives its key to every row of the file with that name.
\<close>

theorem salesperson_resolved_once:
  assumes "resolve_salespersons (unique (map col_Assigned_Salesperson rs)) Map.empty db = (m, db')"
    and "r \<in> set rs" and "n = col_Assigned_Salesperson r"
  shows "if n = [] then
           (\<forall>ld. build_lead_data m r = Inr ld \<longrightarrow> salesperson_id ld = None)
           \<and> (Source_of (col_Source r) \<noteq> None \<and> Interest_of (col_Interest_Level r) \<noteq> None
                \<and> Status_of (col_Status r) \<noteq> None
              \<longrightarrow> (\<exists>ld. build_lead_data m r = Inr ld))
         else
           count_list (unique (map col_Assigned_Salesperson rs)) n = 1
         \<and> length (filter (\<lambda>p. SalesPerson_name p = n) (sales_persons db'))
             = max 1 (length (filter (\<lambda>p. SalesPerson_name p = n) (sales_persons db)))
         \<and> (\<exists>p\<in>set (sales_persons db'). SalesPerson_name p = n
              \<and> (\<forall>r'\<in>set rs. \<forall>ld. col_Assigned_Salesperson r' = n \<longrightarrow>
                    build_lead_data m r' = Inr ld \<longrightarrow>
                    salesperson_id ld = Some (SalesPerson_id p)))"
proof (cases "n = []")
  case True
  with assms(3) show ?thesis
    by (auto simp: build_lead_data_def Let_def split: option.splits)
next
  case False
  let ?ns = "unique (map col_Assigned_Salesperson rs)"
  from assms(2,3) have mem: "n \<in> set ?ns"
    by (simp add: unique_set)
  then have once: "count_list ?ns n = 1"
    by (simp add: distinct_count_list unique_distinct)
  have m: "fst (resolve_salespersons ?ns Map.empty db) = m"
    and db': "snd (resolve_salespersons ?ns Map.empty db) = db'"
    using assms(1) by simp_all
  have count: "length (filter (\<lambda>p. SalesPerson_name p = n) (sales_persons db'))
             = max 1 (length (filter (\<lambda>p. SalesPerson_name p = n) (sales_persons db)))"
    using resolve_salespersons_count [of n ?ns Map.empty db] mem False
    unfolding db' by (cases "filter (\<lambda>p. SalesPerson_name p = n) (sales_persons db)") auto
  from resolve_salespersons_resolves [OF mem False, of Map.empty db]
  obtain p where p: "p \<in> set (sales_persons db')" "SalesPerson_name p = n"
      "m n = Some (SalesPerson_id p)"
    unfolding m db' by blast
  have "\<forall>r'\<in>set rs. \<forall>ld. col_Assigned_Salesperson r' = n \<longrightarrow>
          build_lead_data m r' = Inr ld \<longrightarrow> salesperson_id ld = Some (SalesPerson_id p)"
    using p(3) False by (auto simp: build_lead_data_Inr_fields)
  with p(1,2) once count False show ?thesis by auto
qed

theorem salesperson_resolved_once_witness:
  "count_list (unique [''Bob'', ''Bob'', []]) ''Bob'' = 1
   \<and> resolve_salespersons (unique [''Bob'', ''Bob'', []]) Map.empty \<lparr>leads = [], sales_persons = []\<rparr>
       = ([''Bob'' \<mapsto> 1],
          \<lparr>leads = [], sales_persons = [\<lparr>SalesPerson_id = 1, SalesPerson_name = ''Bob'', SalesPerson_hashed_password = ''temporary_hash''\<rparr>]\<rparr>)
   \<and> build_lead_data [''Bob'' \<mapsto> 1]
        \<lparr>col_Lead_Name = ''Cy'', col_Contact_Information = ''cy@example.com'',
   col_Source = ''Event'', col_Interest_Level = ''Low'',
   col_Status = ''New'', col_Assigned_Salesperson = ''Bob''\<rparr>
       = Inr \<lparr>lead_id = None, name = ''Cy'', contact_information = ''cy@example.com'',
   source = EVENT, interest = LOW, status = NEW,
   assigned_salesperson_name = ''Bob'', salesperson_id = Some 1\<rparr>"
proof -
  let ?r0 = "\<lparr>col_Lead_Name = ''Ann'', col_Contact_Information = ''ann@example.com'',
   col_Source = ''Website'', col_Interest_Level = ''High'',
   col_Status = ''New'', col_Assigned_Salesperson = ''Bob''\<rparr>"
  let ?r1 = "\<lparr>col_Lead_Name = ''Cy'', col_Contact_Information = ''cy@example.com'',
   col_Source = ''Event'', col_Interest_Level = ''Low'',
   col_Status = ''New'', col_Assigned_Salesperson = ''Bob''\<rparr>"
  let ?r2 = "\<lparr>col_Lead_Name = ''Dee'', col_Contact_Information = ''dee@example.com'',
   col_Source = ''Event'', col_Interest_Level = ''Low'',
   col_Status = ''Qualified'', col_Assigned_Salesperson = []\<rparr>"
  let ?rs = "[?r0, ?r1, ?r2]"
  let ?db = "\<lparr>leads = [], sales_persons = []\<rparr>"
  let ?db' = "\<lparr>leads = [], sales_persons = [\<lparr>SalesPerson_id = 1, SalesPerson_name = ''Bob'', SalesPerson_hashed_password = ''temporary_hash''\<rparr>]\<rparr>"
  let ?m = "[''Bob'' \<mapsto> 1::nat]"
  have h1: "resolve_salespersons (unique (map col_Assigned_Salesperson ?rs)) Map.empty ?db = (?m, ?db')"
    by (simp add: unique_def fresh_id_def)
  have h2: "?r0 \<in> set ?rs" by simp
  have h3: "''Bob'' = col_Assigned_Salesperson ?r0" by simp
  from salesperson_resolved_once [OF h1 h2 h3] h1
  show ?thesis
    by (simp add: build_lead_data_def Source_of_def Interest_of_def Status_of_def)
qed

text \<open>
  Claim C8. Take two valid rows \<open>i < j\<close> of a file with the same contact, row \<open>i\<close>
  being the first valid row with it, and let the loop get as far as row \<open>j\<close>. Row \<open>i\<close>
  is queued for insertion when no stored lead has the contact, and otherwise counted as a
  duplicate and queued as an update of the stored lead. Row \<open>j\<close> raises the duplicate
  counter by one and is not queued for insertion.
\<close>

theorem second_occurrence_is_duplicate:
  assumes "i < j" and "j < length rs"
    and "build_lead_data m (snd (rs ! i)) = Inr ld\<^sub>1" and "name ld\<^sub>1 \<noteq> []"
    and "contact_information ld\<^sub>1 \<noteq> []"
    and "build_lead_data m (snd (rs ! j)) = Inr ld\<^sub>2" and "name ld\<^sub>2 \<noteq> []"
    and "contact_information ld\<^sub>2 = contact_information ld\<^sub>1"
    and "\<forall>k<i. \<forall>ld. build_lead_data m (snd (rs ! k)) = Inr ld \<longrightarrow> name ld \<noteq> [] \<longrightarrow>
           contact_information ld \<noteq> contact_information ld\<^sub>1"
    and "process_rows db m (take j rs) = Inr b\<^sub>j"
  shows "(\<exists>b. process_rows db m (take i rs) = Inr b
            \<and> process_rows db m (take (Suc i) rs) =
                Inr (case find (\<lambda>l. Lead_contact_information l = contact_information ld\<^sub>1) (leads db) of
                       None \<Rightarrow>
                         b\<lparr>leads_to_insert := leads_to_insert b @ [ld\<^sub>1],
                           existing_contacts := insert (contact_information ld\<^sub>1) (existing_contacts b)\<rparr>
                     | Some l \<Rightarrow>
                         b\<lparr>duplicates := duplicates b + 1,
                           leads_to_update :=
                             leads_to_update b @ [ld\<^sub>1\<lparr>lead_id := Some (Lead_id l)\<rparr>]\<rparr>))
       \<and> (\<exists>b'. process_rows db m (take (Suc j) rs) = Inr b'
             \<and> duplicates b' = duplicates b\<^sub>j + 1
             \<and> leads_to_insert b' = leads_to_insert b\<^sub>j)"
proof -
  let ?c = "contact_information ld\<^sub>1"
  from assms(1,2) have lt: "i < length rs" and le: "i \<le> length rs" and ij: "i \<le> j"
    and jl: "j \<le> length rs" by simp_all
  from process_rows_prefix [OF ij jl assms(10)]
  obtain b where b: "process_rows db m (take i rs) = Inr b" by blast
  have persisted: "set (map Lead_contact_information (leads db)) \<subseteq> existing_contacts b"
    using b by (rule persisted_contacts_known)
  have known: "?c \<in> existing_contacts b \<longleftrightarrow> ?c \<in> set (map Lead_contact_information (leads db))"
    using known_contact_origin [OF le b, of ?c] persisted assms(9) by blast
  have step: "process_rows db m (take (Suc i) rs) = process_row db m b (rs ! i)"
    by (rule process_rows_step [OF lt b])
  have first: "process_rows db m (take (Suc i) rs) =
                Inr (case find (\<lambda>l. Lead_contact_information l = ?c) (leads db) of
                       None \<Rightarrow>
                         b\<lparr>leads_to_insert := leads_to_insert b @ [ld\<^sub>1],
                           existing_contacts := insert ?c (existing_contacts b)\<rparr>
                     | Some l \<Rightarrow>
                         b\<lparr>duplicates := duplicates b + 1,
                           leads_to_update :=
                             leads_to_update b @ [ld\<^sub>1\<lparr>lead_id := Some (Lead_id l)\<rparr>]\<rparr>)"
  proof (cases "find (\<lambda>l. Lead_contact_information l = ?c) (leads db)")
    case None
    then have "?c \<notin> existing_contacts b"
      using known find_None_contact [of ?c "leads db"] by simp
    with None show ?thesis
      unfolding step by (simp add: process_row_valid [OF assms(3-5)])
  next
    case (Some l)
    then have "?c \<in> existing_contacts b"
      using known find_None_contact [of ?c "leads db"] by simp
    with Some show ?thesis
      unfolding step by (simp add: process_row_valid [OF assms(3-5)])
  qed
  have "?c \<in> existing_contacts b\<^sub>j"
    using earlier_valid_row_contact_known [OF assms(1) jl assms(3-5) assms(10)] .
  moreover have "process_rows db m (take (Suc j) rs) = process_row db m b\<^sub>j (rs ! j)"
    by (rule process_rows_step [OF assms(2,10)])
  moreover have "contact_information ld\<^sub>2 \<noteq> []"
    using assms(5,8) by simp
  ultimately have second: "\<exists>b'. process_rows db m (take (Suc j) rs) = Inr b'
             \<and> duplicates b' = duplicates b\<^sub>j + 1
             \<and> leads_to_insert b' = leads_to_insert b\<^sub>j"
    using assms(8) by (simp add: process_row_valid [OF assms(6,7)] split: option.splits)
  from b first second show ?thesis by blast
qed

theorem second_occurrence_is_duplicate_witness:
  "process_rows \<lparr>leads = [], sales_persons = []\<rparr> Map.empty
     (take (Suc 1)
        [(IntLabel 0, \<lparr>col_Lead_Name = ''Cy'', col_Contact_Information = ''cy@example.com'',
   col_Source = ''Referral'', col_Interest_Level = ''Medium'',
   col_Status = ''Closed'', col_Assigned_Salesperson = []\<rparr>),
  (IntLabel 1, \<lparr>col_Lead_Name = ''Ann'', col_Contact_Information = ''ann@example.com'',
   col_Source = ''Website'', col_Interest_Level = ''High'',
   col_Status = ''New'', col_Assigned_Salesperson = []\<rparr>),
  (IntLabel 2, \<lparr>col_Lead_Name = ''Ann B'', col_Contact_Information = ''ann@example.com'',
   col_Source = ''Event'', col_Interest_Level = ''Low'',
   col_Status = ''New'', col_Assigned_Salesperson = []\<rparr>)])
   = Inr \<lparr>leads_to_insert = [\<lparr>lead_id = None, name = ''Cy'', contact_information = ''cy@example.com'',
   source = REFERRAL, interest = MEDIUM, status = CLOSED,
   assigned_salesperson_name = [], salesperson_id = None\<rparr>,
  \<lparr>lead_id = None, name = ''Ann'', contact_information = ''ann@example.com'',
   source = WEBSITE, interest = HIGH, status = NEW,
   assigned_salesperson_name = [], salesperson_id = None\<rparr>],
   leads_to_update = [], row_errors = [], duplicates = 0,
   existing_contacts = {''ann@example.com'', ''cy@example.com''}\<rparr>
   \<and> process_rows \<lparr>leads = [], sales_persons = []\<rparr> Map.empty
     (take (Suc 2)
        [(IntLabel 0, \<lparr>col_Lead_Name = ''Cy'', col_Contact_Information = ''cy@example.com'',
   col_Source = ''Referral'', col_Interest_Level = ''Medium'',
   col_Status = ''Closed'', col_Assigned_Salesperson = []\<rparr>),
  (IntLabel 1, \<lparr>col_Lead_Name = ''Ann'', col_Contact_Information = ''ann@example.com'',
   col_Source = ''Website'', col_Interest_Level = ''High'',
   col_Status = ''New'', col_Assigned_Salesperson = []\<rparr>),
  (IntLabel 2, \<lparr>col_Lead_Name = ''Ann B'', col_Contact_Information = ''ann@example.com'',
   col_Source = ''Event'', col_Interest_Level = ''Low'',
   col_Status = ''New'', col_Assigned_Salesperson = []\<rparr>)])
   = Inr \<lparr>leads_to_insert = [\<lparr>lead_id = None, name = ''Cy'', contact_information = ''cy@example.com'',
   source = REFERRAL, interest = MEDIUM, status = CLOSED,
   assigned_salesperson_name = [], salesperson_id = None\<rparr>,
  \<lparr>lead_id = None, name = ''Ann'', contact_information = ''ann@example.com'',
   source = WEBSITE, interest = HIGH, status = NEW,
   assigned_salesperson_name = [], salesperson_id = None\<rparr>],
   leads_to_update = [], row_errors = [], duplicates = 1,
   existing_contacts = {''ann@example.com'', ''cy@example.com''}\<rparr>"
proof -
  let ?rs = "[(IntLabel 0, \<lparr>col_Lead_Name = ''Cy'', col_Contact_Information = ''cy@example.com'',
   col_Source = ''Referral'', col_Interest_Level = ''Medium'',
   col_Status = ''Closed'', col_Assigned_Salesperson = []\<rparr>),
  (IntLabel 1, \<lparr>col_Lead_Name = ''Ann'', col_Contact_Information = ''ann@example.com'',
   col_Source = ''Website'', col_Interest_Level = ''High'',
   col_Status = ''New'', col_Assigned_Salesperson = []\<rparr>),
  (IntLabel 2, \<lparr>col_Lead_Name = ''Ann B'', col_Contact_Information = ''ann@example.com'',
   col_Source = ''Event'', col_Interest_Level = ''Low'',
   col_Status = ''New'', col_Assigned_Salesperson = []\<rparr>)]"
  let ?ld0 = "\<lparr>lead_id = None, name = ''Cy'', contact_information = ''cy@example.com'',
   source = REFERRAL, interest = MEDIUM, status = CLOSED,
   assigned_salesperson_name = [], salesperson_id = None\<rparr>"
  let ?ld1 = "\<lparr>lead_id = None, name = ''Ann'', contact_information = ''ann@example.com'',
   source = WEBSITE, interest = HIGH, status = NEW,
   assigned_salesperson_name = [], salesperson_id = None\<rparr>"
  let ?ld2 = "\<lparr>lead_id = None, name = ''Ann B'', contact_information = ''ann@example.com'',
   source = EVENT, interest = LOW, status = NEW,
   assigned_salesperson_name = [], salesperson_id = None\<rparr>"
  let ?db = "\<lparr>leads = [], sales_persons = []\<rparr>"
  let ?b2 = "\<lparr>leads_to_insert = [?ld0, ?ld1],
   leads_to_update = [], row_errors = [], duplicates = 0,
   existing_contacts = {''ann@example.com'', ''cy@example.com''}\<rparr>"
  have h1: "(1::nat) < 2" by simp
  have h2: "2 < length ?rs" by simp
  have h3: "build_lead_data Map.empty (snd (?rs ! 1)) = Inr ?ld1"
    by (simp add: build_lead_data_def Source_of_def Interest_of_def Status_of_def)
  have h4: "name ?ld1 \<noteq> []" by simp
  have h5: "contact_information ?ld1 \<noteq> []" by simp
  have h6: "build_lead_data Map.empty (snd (?rs ! 2)) = Inr ?ld2"
    by (simp add: build_lead_data_def Source_of_def Interest_of_def Status_of_def)
  have h7: "name ?ld2 \<noteq> []" by simp
  have h8: "contact_information ?ld2 = contact_information ?ld1" by simp
  have h9: "\<forall>k<1. \<forall>ld. build_lead_data Map.empty (snd (?rs ! k)) = Inr ld \<longrightarrow> name ld \<noteq> [] \<longrightarrow>
           contact_information ld \<noteq> contact_information ?ld1"
    by (auto simp: build_lead_data_def Source_of_def Interest_of_def Status_of_def)
  have h10: "process_rows ?db Map.empty (take 2 ?rs) = Inr ?b2"
    by (simp add: process_rows_def process_row_def build_lead_data_def initial_batch_def
          row_number_def except_ValueError_def except_Exception_def
          Source_of_def Interest_of_def Status_of_def numeral_2_eq_2)
  have first: "process_rows ?db Map.empty (take 1 ?rs) =
      Inr \<lparr>leads_to_insert = [?ld0],
   leads_to_update = [], row_errors = [], duplicates = 0,
   existing_contacts = {''cy@example.com''}\<rparr>"
    by (simp add: process_rows_def process_row_def build_lead_data_def initial_batch_def
          row_number_def except_ValueError_def except_Exception_def
          Source_of_def Interest_of_def Status_of_def)
  have third: "process_rows ?db Map.empty (take (Suc 2) ?rs) =
      Inr \<lparr>leads_to_insert = [?ld0, ?ld1],
   leads_to_update = [], row_errors = [], duplicates = 1,
   existing_contacts = {''ann@example.com'', ''cy@example.com''}\<rparr>"
    by (simp add: process_rows_def process_row_def build_lead_data_def initial_batch_def
          row_number_def except_ValueError_def except_Exception_def
          Source_of_def Interest_of_def Status_of_def numeral_3_eq_3)
  from second_occurrence_is_duplicate [OF h1 h2 h3 h4 h5 h6 h7 h8 h9 h10] first third
  show ?thesis by (simp add: numeral_2_eq_2)
qed

text \<open>
  Claim C9. A file named \<^verbatim>\<open>*.csv\<close> that parses into a frame lacking some required
  columns is answered with status 400; the detail ends with the missing column names, in
  the order of the required list and joined by a comma and a blank; the store is left as
  it was. The required list is the one of line 276; the docstring of the function also
  names a column \<^verbatim>\<open>Lead ID\<close>, which the code neither requires nor reads.
\<close>

theorem missing_columns_rejected:
  assumes "endswith file_name ''.csv''"
    and "missing = filter (\<lambda>col. col \<notin> set (columns df)) required_columns"
    and "missing \<noteq> []"
  shows "load_data_file file_name (DataFrame df) db fault =
     (Inl (HTTPException 400
        (''Error processing CSV file: 400: Missing required columns in CSV: '' @ join '', '' missing)),
      db)"
  using assms missing_nonempty_iff [of "columns df" required_columns]
  by (simp add: load_data_file_def Let_def)

theorem missing_columns_rejected_witness:
  "load_data_file ''leads.csv''
     (DataFrame \<lparr>columns = [''Lead Name'', ''Contact Information'', ''Interest Level'', ''Status''],
                 rows = []\<rparr>)
     \<lparr>leads = [], sales_persons = []\<rparr> None
   = (Inl (HTTPException 400
        ''Error processing CSV file: 400: Missing required columns in CSV: Source, Assigned Salesperson''),
      \<lparr>leads = [], sales_persons = []\<rparr>)"
  using missing_columns_rejected [of "''leads.csv''" "[''Source'', ''Assigned Salesperson'']"
      "\<lparr>columns = [''Lead Name'', ''Contact Information'', ''Interest Level'', ''Status''],
                 rows = []\<rparr>" "\<lparr>leads = [], sales_persons = []\<rparr>" None]
  by (simp add: endswith_def required_columns_def)

text \<open>
  Claim C10. A valid row whose contact is not stored but was already seen in an earlier
  valid row of the file only raises the duplicate counter: the lists of rows to insert,
  rows to update and row errors, and the running set, stay as they were. So a request
  can return with \<^verbatim>\<open>rows_imported + rows_updated\<close> plus the number of errors below
  \<^verbatim>\<open>rows_processed\<close>.
\<close>

theorem in_file_duplicate_is_dropped:
  assumes "i < j" and "j < length rs"
    and "build_lead_data m (snd (rs ! i)) = Inr ld\<^sub>1" and "name ld\<^sub>1 \<noteq> []"
    and "build_lead_data m (snd (rs ! j)) = Inr ld\<^sub>2" and "name ld\<^sub>2 \<noteq> []"
    and "contact_information ld\<^sub>2 \<noteq> []"
    and "contact_information ld\<^sub>1 = contact_information ld\<^sub>2"
    and "contact_information ld\<^sub>2 \<notin> set (map Lead_contact_information (leads db))"
    and "process_rows db m (take j rs) = Inr b"
  shows "process_rows db m (take (Suc j) rs) = Inr (b\<lparr>duplicates := duplicates b + 1\<rparr>)
       \<and> (\<exists>file_name df db\<^sub>0 fault r db'.
            load_data_file file_name (DataFrame df) db\<^sub>0 fault = (Inr r, db')
            \<and> rows_imported r + rows_updated r + length (errors r) < rows_processed r)"
proof
  show "process_rows db m (take (Suc j) rs) = Inr (b\<lparr>duplicates := duplicates b + 1\<rparr>)"
    using assms by (rule in_file_duplicate_row)
  show "\<exists>file_name df db\<^sub>0 fault r db'.
            load_data_file file_name (DataFrame df) db\<^sub>0 fault = (Inr r, db')
            \<and> rows_imported r + rows_updated r + length (errors r) < rows_processed r"
    by (intro exI conjI, rule dropped_row_example) simp
qed

theorem in_file_duplicate_is_dropped_witness:
  "process_rows \<lparr>leads = [], sales_persons = []\<rparr> Map.empty
     (take (Suc 1)
        [(StrLabel ''L-1'', \<lparr>col_Lead_Name = ''Ann'', col_Contact_Information = ''ann@example.com'',
   col_Source = ''Website'', col_Interest_Level = ''High'',
   col_Status = ''New'', col_Assigned_Salesperson = []\<rparr>),
  (StrLabel ''L-2'', \<lparr>col_Lead_Name = ''Ann B'', col_Contact_Information = ''ann@example.com'',
   col_Source = ''Event'', col_Interest_Level = ''Low'',
   col_Status = ''New'', col_Assigned_Salesperson = []\<rparr>)])
   = Inr \<lparr>leads_to_insert = [\<lparr>lead_id = None, name = ''Ann'', contact_information = ''ann@example.com'',
   source = WEBSITE, interest = HIGH, status = NEW,
   assigned_salesperson_name = [], salesperson_id = None\<rparr>],
   leads_to_update = [], row_errors = [], duplicates = 1,
   existing_contacts = {''ann@example.com''}\<rparr>"
proof -
  let ?rs = "[(StrLabel ''L-1'', \<lparr>col_Lead_Name = ''Ann'', col_Contact_Information = ''ann@example.com'',
   col_Source = ''Website'', col_Interest_Level = ''High'',
   col_Status = ''New'', col_Assigned_Salesperson = []\<rparr>),
  (StrLabel ''L-2'', \<lparr>col_Lead_Name = ''Ann B'', col_Contact_Information = ''ann@example.com'',
   col_Source = ''Event'', col_Interest_Level = ''Low'',
   col_Status = ''New'', col_Assigned_Salesperson = []\<rparr>)]"
  let ?ld1 = "\<lparr>lead_id = None, name = ''Ann'', contact_information = ''ann@example.com'',
   source = WEBSITE, interest = HIGH, status = NEW,
   assigned_salesperson_name = [], salesperson_id = None\<rparr>"
  let ?ld2 = "\<lparr>lead_id = None, name = ''Ann B'', contact_information = ''ann@example.com'',
   source = EVENT, interest = LOW, status = NEW,
   assigned_salesperson_name = [], salesperson_id = None\<rparr>"
  let ?db = "\<lparr>leads = [], sales_persons = []\<rparr>"
  let ?b = "\<lparr>leads_to_insert = [?ld1],
   leads_to_update = [], row_errors = [], duplicates = 0,
   existing_contacts = {''ann@example.com''}\<rparr>"
  have h1: "(0::nat) < 1" by simp
  have h2: "1 < length ?rs" by simp
  have h3: "build_lead_data Map.empty (snd (?rs ! 0)) = Inr ?ld1"
    by (simp add: build_lead_data_def Source_of_def Interest_of_def Status_of_def)
  have h4: "name ?ld1 \<noteq> []" by simp
  have h5: "build_lead_data Map.empty (snd (?rs ! 1)) = Inr ?ld2"
    by (simp add: build_lead_data_def Source_of_def Interest_of_def Status_of_def)
  have h6: "name ?ld2 \<noteq> []" by simp
  have h7: "contact_information ?ld2 \<noteq> []" by simp
  have h8: "contact_information ?ld1 = contact_information ?ld2" by simp
  have h9: "contact_information ?ld2 \<notin> set (map Lead_contact_information (leads ?db))" by simp
  have h10: "process_rows ?db Map.empty (take 1 ?rs) = Inr ?b"
    by (simp add: process_rows_def process_row_def build_lead_data_def initial_batch_def
          row_number_def except_ValueError_def except_Exception_def
          Source_of_def Interest_of_def Status_of_def)
  from in_file_duplicate_is_dropped [OF h1 h2 h3 h4 h5 h6 h7 h8 h9 h10]
  show ?thesis by simp
qed

end
